theory Spec2Isabelle
  imports Complex_Main
begin

section \<open>The page script of the recruitment site (js/script.js)\<close>

text \<open>
  The script is a set of event handlers over the browser's document. Each handler is
  modelled as a function from the part of the document it reads and writes to the
  updated part. The document itself (the markup, the layout boxes, the scroll position)
  is the input of these functions. The repository holds the script in several variants
  (a university page, a college page, with and without comments) whose functions are
  the same; they differ in the configured counters and in whether the info request form
  and the reveal animations are present.
\<close>

subsection \<open>DOMTokenList: the class list of an element\<close>

text \<open>
  \<^verbatim>\<open>classList\<close> is an ordered set of tokens: \<^verbatim>\<open>add\<close> appends a token that is
  not there yet, \<^verbatim>\<open>remove\<close> deletes it, \<^verbatim>\<open>contains\<close> tests membership.
\<close>

definition classList_add :: "string \<Rightarrow> string list \<Rightarrow> string list" where
  "classList_add c cs = (if c \<in> set cs then cs else cs @ [c])"

definition classList_remove :: "string \<Rightarrow> string list \<Rightarrow> string list" where
  "classList_remove c cs = filter (\<lambda>x. x \<noteq> c) cs"

definition classList_contains :: "string \<Rightarrow> string list \<Rightarrow> bool" where
  "classList_contains c cs = (c \<in> set cs)"

subsection \<open>Smooth scrolling: the click handler of initializeNavigation\<close>

datatype js_error = SyntaxError | TypeError

text \<open>An element that an anchor can point to: its id and its layout offset in pixels.\<close>

record anchor_target =
  target_id :: string
  offsetTop :: int

text \<open>
  The document as the handler sees it: its elements in tree order, and whether it is in
  quirks mode (where ids are not compared character by character).
\<close>

record anchor_document =
  doc_elements :: "anchor_target list"
  quirks_mode :: bool

text \<open>
  \<^verbatim>\<open>document.querySelector(href)\<close> parses the href as a CSS selector. The
  handler is attached to the links \<^verbatim>\<open>a[href^="#"]\<close>, so the selector starts with
  a number sign, and CSS reads what follows as the name of an id selector only when it
  begins an identifier: a letter or underscore, or a hyphen followed by one of these or
  by a second hyphen. Three forms of href are told apart.

  \<^item> \<open>NotASelector\<close>: the number sign is followed by nothing, by a digit, by a hyphen
    and then nothing or a digit, or by another ASCII character that no identifier
    starts with. No selector starts like this and querySelector throws a SyntaxError.
  \<^item> \<open>IdSelector name\<close>: the number sign is followed by an identifier of ASCII letters,
    digits, underscores and hyphens, and by nothing else. It selects the first element
    whose id is that name.
  \<^item> \<open>OtherSelector\<close>: everything else, among it every href with a backslash escape, a
    NUL or a non-ASCII character, and every compound or complex selector. What the
    browser makes of these is not modelled: it is the parameter \<open>engine\<close> of
    \<open>querySelector\<close>, which also answers for a document in quirks mode.
\<close>

definition ascii_letter :: "char \<Rightarrow> bool" where
  "ascii_letter c = (c \<in> set ''abcdefghijklmnopqrstuvwxyzABCDEFGHIJKLMNOPQRSTUVWXYZ'')"

definition ascii_digit :: "char \<Rightarrow> bool" where
  "ascii_digit c = (c \<in> set ''0123456789'')"

definition name_start :: "char \<Rightarrow> bool" where
  "name_start c = (ascii_letter c \<or> c = CHR ''_'')"

definition name_char :: "char \<Rightarrow> bool" where
  "name_char c = (name_start c \<or> ascii_digit c \<or> c = CHR ''-'')"

definition unmodelled_char :: "char \<Rightarrow> bool" where
  "unmodelled_char c = (c = CHR 0x5C \<or> c = CHR 0x00 \<or> (128 :: nat) \<le> of_char c)"

definition begins_identifier :: "string \<Rightarrow> bool" where
  "begins_identifier cs =
     (case cs of
        [] \<Rightarrow> False
      | c # ds \<Rightarrow>
          name_start c
          \<or> (c = CHR ''-'' \<and> (case ds of [] \<Rightarrow> False | d # _ \<Rightarrow> name_start d \<or> d = CHR ''-'')))"

datatype selector_form = NotASelector | IdSelector string | OtherSelector

definition selector_form :: "string \<Rightarrow> selector_form" where
  "selector_form sel =
     (case sel of
        [] \<Rightarrow> OtherSelector
      | h # cs \<Rightarrow>
          if h \<noteq> CHR ''#'' then OtherSelector
          else if list_ex unmodelled_char cs then OtherSelector
          else if \<not> begins_identifier cs then NotASelector
          else if list_all name_char cs then IdSelector cs
          else OtherSelector)"

definition querySelector ::
  "(string \<Rightarrow> anchor_document \<Rightarrow> js_error + anchor_target option) \<Rightarrow>
   string \<Rightarrow> anchor_document \<Rightarrow> js_error + anchor_target option" where
  "querySelector engine sel doc =
     (case selector_form sel of
        NotASelector \<Rightarrow> Inl SyntaxError
      | IdSelector name \<Rightarrow>
          if quirks_mode doc then engine sel doc
          else Inr (find (\<lambda>e. target_id e = name) (doc_elements doc))
      | OtherSelector \<Rightarrow> engine sel doc)"

text \<open>\<^verbatim>\<open>window.scrollTo({ top: ..., behavior: 'smooth' })\<close>\<close>

record scroll_command =
  scroll_top :: int
  behavior :: string

text \<open>
  What one click changes: the event's defaultPrevented flag, the scroll commands issued
  to the window, and the exception the handler ended with, if any. An exception of
  querySelector is not caught by the handler: it ends it after the call of
  preventDefault and before any scroll command.
\<close>

record click_result =
  defaultPrevented :: bool
  scrollTo_calls :: "scroll_command list"
  thrown :: "js_error option"

text \<open>
  \<^verbatim>\<open>
  anchor.addEventListener('click', function (e) {
      e.preventDefault();
      const target = document.querySelector(this.getAttribute('href'));
      if (target) {
          const offsetTop = target.offsetTop - 80;
          window.scrollTo({ top: offsetTop, behavior: 'smooth' });
      }
  });
  \<close>
\<close>

definition anchor_click ::
  "(string \<Rightarrow> anchor_document \<Rightarrow> js_error + anchor_target option) \<Rightarrow>
   string \<Rightarrow> anchor_document \<Rightarrow> click_result" where
  "anchor_click engine href doc =
     (let prevented = True in
      case querySelector engine href doc of
        Inl err \<Rightarrow> \<lparr>defaultPrevented = prevented, scrollTo_calls = [], thrown = Some err\<rparr>
      | Inr None \<Rightarrow> \<lparr>defaultPrevented = prevented, scrollTo_calls = [], thrown = None\<rparr>
      | Inr (Some target) \<Rightarrow>
          \<lparr>defaultPrevented = prevented,
           scrollTo_calls = [\<lparr>scroll_top = offsetTop target - 80, behavior = ''smooth''\<rparr>],
           thrown = None\<rparr>)"

subsection \<open>Active link highlighting: updateActiveNavigation\<close>













text \<open>
  A page with a section whose id starts with a digit, as HTML allows, and a page whose
  ids are all CSS identifiers.
\<close>

definition digit_id_page :: anchor_document where
  "digit_id_page =
     \<lparr>doc_elements = [\<lparr>target_id = ''home'', offsetTop = 0\<rparr>,
                  \<lparr>target_id = ''1abc'', offsetTop = 1240\<rparr>],
      quirks_mode = False\<rparr>"

definition programs_page :: anchor_document where
  "programs_page =
     \<lparr>doc_elements = [\<lparr>target_id = ''home'', offsetTop = 0\<rparr>,
                  \<lparr>target_id = ''-intro'', offsetTop = 600\<rparr>,
                  \<lparr>target_id = ''programs'', offsetTop = 1240\<rparr>],
      quirks_mode = False\<rparr>"

subsection \<open>Numbers\<close>

text \<open>
  A JavaScript number is an IEEE 754 binary64 value. The finite ones are modelled by the
  rationals they denote, and every arithmetic operation of the script is the exact
  operation followed by rounding to the nearest binary64 value, ties to even
  (\<open>fl64\<close>). A binary64 value has a 53 bit significand; below \<open>2 ^ -1022\<close> the
  spacing of the values stays \<open>2 ^ -1074\<close>. Overflow to Infinity (from \<open>2 ^ 1024\<close> on)
  is outside the model: the numbers of the counter animation stay below \<open>2 ^ 54\<close>.
\<close>

text \<open>The number of binary digits of a positive integer.\<close>

function bit_length :: "int \<Rightarrow> nat" where
  "bit_length n = (if n \<le> 0 then 0 else Suc (bit_length (n div 2)))"
  by pat_completeness auto
termination
  by (relation "measure nat") auto

declare bit_length.simps [simp del]

text \<open>The exponent of the binade of a positive rational: \<open>2 ^ e \<le> x < 2 ^ (e + 1)\<close>.\<close>

definition floor_log2 :: "rat \<Rightarrow> int" where
  "floor_log2 x =
     (if 1 \<le> x then int (bit_length \<lfloor>x\<rfloor>) - 1
      else - int (bit_length (\<lceil>1 / x\<rceil> - 1)))"

definition pow2 :: "int \<Rightarrow> rat" where
  "pow2 e = (if 0 \<le> e then 2 ^ nat e else 1 / 2 ^ nat (- e))"

definition round_half_even :: "rat \<Rightarrow> int" where
  "round_half_even x =
     (let f = \<lfloor>x\<rfloor>; r = x - of_int f
      in if r < 1 / 2 then f else if 1 / 2 < r then f + 1 else if even f then f else f + 1)"

definition fl64 :: "rat \<Rightarrow> rat" where
  "fl64 x =
     (if x = 0 then 0
      else let e = max (floor_log2 \<bar>x\<bar>) (- 1022) - 52;
               m = round_half_even (\<bar>x\<bar> / pow2 e)
           in sgn x * of_int m * pow2 e)"

text \<open>
  \<^verbatim>\<open>Number.prototype.toLocaleString()\<close> of an integer, in the locale of the
  specification's examples (en-US): decimal digits in groups of three, separated by
  commas, with a minus sign for a negative number.
\<close>

definition digit_char :: "int \<Rightarrow> char" where
  "digit_char d = ''0123456789'' ! nat (d mod 10)"

function decimal_digits :: "int \<Rightarrow> string" where
  "decimal_digits n =
     (if n < 10 then [digit_char n] else decimal_digits (n div 10) @ [digit_char n])"
  by pat_completeness auto
termination
  by (relation "measure nat") auto

declare decimal_digits.simps [simp del]

fun group_thousands :: "string \<Rightarrow> string" where
  "group_thousands ds =
     (if length ds \<le> 3 then ds
      else group_thousands (take (length ds - 3) ds) @ CHR '','' # drop (length ds - 3) ds)"

declare group_thousands.simps [simp del]

definition toLocaleString_enUS :: "int \<Rightarrow> string" where
  "toLocaleString_enUS i =
     (if i < 0 then CHR ''-'' # group_thousands (decimal_digits (- i))
      else group_thousands (decimal_digits i))"

text \<open>
  Rounding to nearest changes a number in the normal range by at most the relative
  error \<open>2 ^ -53\<close>: the rounded value of such an \<open>x > 0\<close> lies between
  \<open>x * round_down\<close> and \<open>x * round_up\<close>.
\<close>

definition round_down :: rat where
  "round_down = 1 - 1 / 2 ^ 53"

definition round_up :: rat where
  "round_up = 1 + 1 / 2 ^ 53"

subsection \<open>Elements and intersection observers\<close>

text \<open>
  The elements that the observers and the counter animation write to. An element is
  named by a key (its identity as a DOM node); the document maps every key to the state
  of that element. \<open>data_delay\<close> is the attribute \<^verbatim>\<open>data-delay\<close> (null when
  absent) and \<open>style_reveal_delay\<close> the style property \<^verbatim>\<open>--reveal-delay\<close>.
\<close>

record dom_element =
  classList :: "string list"
  textContent :: string
  data_delay :: "string option"
  style_reveal_delay :: "string option"

text \<open>An IntersectionObserverEntry, as far as the callbacks read it.\<close>

record io_entry =
  entry_target :: string
  isIntersecting :: bool

text \<open>
  The closure of one \<^verbatim>\<open>setInterval\<close> call of animateCounter: the variables
  \<^verbatim>\<open>current\<close>, \<^verbatim>\<open>increment\<close>, \<^verbatim>\<open>target\<close>, \<^verbatim>\<open>suffix\<close>, the
  element, and whether \<^verbatim>\<open>clearInterval\<close> has been called on the timer.
\<close>

record interval_timer =
  timer_element :: string
  current :: rat
  increment :: rat
  target :: rat
  suffix :: string
  cleared :: bool

text \<open>
  The document as the observers see it: the elements, the observation targets of the
  three observers (fade-in, reveal, counters), and the interval timers started so far,
  in the order of their creation.
\<close>

record document_state =
  elements :: "string \<Rightarrow> dom_element"
  fade_observed :: "string set"
  reveal_observed :: "string set"
  counter_observed :: "string set"
  intervals :: "interval_timer list"

definition add_class :: "string \<Rightarrow> string \<Rightarrow> document_state \<Rightarrow> document_state" where
  "add_class e c s =
     s\<lparr>elements := (elements s)(e := (elements s e)\<lparr>classList := classList_add c (classList (elements s e))\<rparr>)\<rparr>"

subsubsection \<open>initializeScrollEffects\<close>

text \<open>
  \<^verbatim>\<open>
  const fadeObserver = new IntersectionObserver((entries) => {
      entries.forEach(entry => {
          if (entry.isIntersecting) {
              entry.target.classList.add('show');
          }
      });
  }, { threshold: 0.1, rootMargin: '0px 0px -50px 0px' });
  fadeElements.forEach(element => { fadeObserver.observe(element); });
  \<close>
\<close>

definition fade_entry :: "io_entry \<Rightarrow> document_state \<Rightarrow> document_state" where
  "fade_entry entry s =
     (if isIntersecting entry then add_class (entry_target entry) ''show'' s else s)"

definition fade_callback :: "io_entry list \<Rightarrow> document_state \<Rightarrow> document_state" where
  "fade_callback entries s = fold fade_entry entries s"

definition initializeScrollEffects :: "string list \<Rightarrow> document_state \<Rightarrow> document_state" where
  "initializeScrollEffects fadeElements s = s\<lparr>fade_observed := set fadeElements\<rparr>"

subsubsection \<open>initializeRevealAnimations\<close>

text \<open>
  \<^verbatim>\<open>
  const revealEls = document.querySelectorAll('.reveal');
  if (!revealEls.length) return;
  const observer = new IntersectionObserver((entries, obs) => {
      entries.forEach(entry => {
          if (entry.isIntersecting) {
              const target = entry.target;
              const delay = target.getAttribute('data-delay');
              if (delay) target.style.setProperty('--reveal-delay', delay);
              target.classList.add('visible');
              obs.unobserve(target);
          }
      });
  }, { threshold: 0.15, rootMargin: '0px 0px -40px 0px' });
  revealEls.forEach(el => observer.observe(el));
  \<close>
  A string is truthy when it is neither null nor empty.
\<close>

definition truthy :: "string option \<Rightarrow> bool" where
  "truthy v = (case v of None \<Rightarrow> False | Some str \<Rightarrow> str \<noteq> [])"

definition set_reveal_delay :: "string \<Rightarrow> document_state \<Rightarrow> document_state" where
  "set_reveal_delay e s =
     (let delay = data_delay (elements s e)
      in if truthy delay
         then s\<lparr>elements := (elements s)(e := (elements s e)\<lparr>style_reveal_delay := delay\<rparr>)\<rparr>
         else s)"

definition reveal_entry :: "io_entry \<Rightarrow> document_state \<Rightarrow> document_state" where
  "reveal_entry entry s =
     (if isIntersecting entry
      then let tgt = entry_target entry;
               s1 = set_reveal_delay tgt s;
               s2 = add_class tgt ''visible'' s1
           in s2\<lparr>reveal_observed := reveal_observed s2 - {tgt}\<rparr>
      else s)"

definition reveal_callback :: "io_entry list \<Rightarrow> document_state \<Rightarrow> document_state" where
  "reveal_callback entries s = fold reveal_entry entries s"

definition initializeRevealAnimations :: "string list \<Rightarrow> document_state \<Rightarrow> document_state" where
  "initializeRevealAnimations revealEls s =
     (if revealEls = [] then s else s\<lparr>reveal_observed := set revealEls\<rparr>)"

text \<open>
  The browser's side of an observer: it reports a change of visibility only for the
  elements that are observation targets when the batch of entries is delivered.
\<close>

definition deliver ::
  "(document_state \<Rightarrow> string set) \<Rightarrow> (io_entry list \<Rightarrow> document_state \<Rightarrow> document_state)
     \<Rightarrow> io_entry list \<Rightarrow> document_state \<Rightarrow> document_state" where
  "deliver targets callback entries s =
     callback (filter (\<lambda>entry. entry_target entry \<in> targets s) entries) s"

text \<open>A document with one fade-in element, observed, that carries only its own class.\<close>

definition plain_element :: "string list \<Rightarrow> dom_element" where
  "plain_element cs =
     \<lparr>classList = cs, textContent = [], data_delay = None, style_reveal_delay = None\<rparr>"

definition hero_page :: document_state where
  "hero_page =
     \<lparr>elements = (\<lambda>e. plain_element []), fade_observed = {}, reveal_observed = {},
      counter_observed = {}, intervals = []\<rparr>"

subsection \<open>The statistics counters\<close>

text \<open>
  A counter descriptor of initializeCounters; \<^verbatim>\<open>document.getElementById\<close> gives
  null for an id that the page does not have.
\<close>

record counter =
  counter_element :: "string option"
  counter_target :: rat
  counter_suffix :: string

definition getElementById :: "(string \<Rightarrow> bool) \<Rightarrow> string \<Rightarrow> string option" where
  "getElementById present i = (if present i then Some i else None)"

text \<open>The counters of js/script.js, and those of the college variant of the script.\<close>

definition university_counters :: "(string \<Rightarrow> bool) \<Rightarrow> counter list" where
  "university_counters present =
     [\<lparr>counter_element = getElementById present ''student-count'', counter_target = 71000, counter_suffix = ''+''\<rparr>,
      \<lparr>counter_element = getElementById present ''program-count'', counter_target = 150, counter_suffix = ''+''\<rparr>,
      \<lparr>counter_element = getElementById present ''faculty-count'', counter_target = 9000, counter_suffix = ''+''\<rparr>,
      \<lparr>counter_element = getElementById present ''alumni-count'', counter_target = 500000, counter_suffix = ''+''\<rparr>]"

definition college_counters :: "(string \<Rightarrow> bool) \<Rightarrow> counter list" where
  "college_counters present =
     [\<lparr>counter_element = getElementById present ''student-count'', counter_target = 2847, counter_suffix = ''''\<rparr>,
      \<lparr>counter_element = getElementById present ''program-count'', counter_target = 15, counter_suffix = ''''\<rparr>,
      \<lparr>counter_element = getElementById present ''placement-rate'', counter_target = 94, counter_suffix = ''%''\<rparr>,
      \<lparr>counter_element = getElementById present ''alumni-count'', counter_target = 12500, counter_suffix = ''+''\<rparr>]"

text \<open>
  \<^verbatim>\<open>
  function animateCounter(element, target, suffix = '') {
      element.classList.add('counting');
      let current = 0;
      const increment = target / 50;
      const duration = 2000;
      const stepTime = duration / 50;
      const timer = setInterval(() => { ... }, stepTime);
  }
  \<close>
  The call adds the class and starts a new interval timer with a period of
  \<open>stepTime\<close> milliseconds.
\<close>

definition duration :: rat where
  "duration = 2000"

definition stepTime :: rat where
  "stepTime = fl64 (duration / 50)"

definition new_timer :: "string \<Rightarrow> rat \<Rightarrow> string \<Rightarrow> interval_timer" where
  "new_timer element tgt suf =
     \<lparr>timer_element = element, current = 0, increment = fl64 (tgt / 50),
      target = tgt, suffix = suf, cleared = False\<rparr>"

definition animateCounter :: "string \<Rightarrow> rat \<Rightarrow> string \<Rightarrow> document_state \<Rightarrow> document_state" where
  "animateCounter element tgt suf s =
     (let s1 = add_class element ''counting'' s
      in s1\<lparr>intervals := intervals s1 @ [new_timer element tgt suf]\<rparr>)"

text \<open>
  The interval callback:
  \<^verbatim>\<open>
      current += increment;
      if (current >= target) {
          current = target;
          clearInterval(timer);
      }
      const formattedNumber = Math.floor(current).toLocaleString();
      element.textContent = formattedNumber + suffix;
  \<close>
  \<open>interval_step\<close> is its effect on the closure, \<open>interval_text\<close> the text it
  writes. \<open>toLocaleString\<close> is the formatting of the host's locale, a parameter.
\<close>

definition interval_step :: "interval_timer \<Rightarrow> interval_timer" where
  "interval_step t =
     (let cur = fl64 (current t + increment t)
      in if cur \<ge> target t then t\<lparr>current := target t, cleared := True\<rparr>
         else t\<lparr>current := cur\<rparr>)"

definition interval_text :: "(int \<Rightarrow> string) \<Rightarrow> interval_timer \<Rightarrow> string" where
  "interval_text toLocaleString t = toLocaleString \<lfloor>current t\<rfloor> @ suffix t"

text \<open>A tick as the closure sees it: a cleared timer does not run its callback.\<close>

definition interval_tick :: "interval_timer \<Rightarrow> interval_timer" where
  "interval_tick t = (if cleared t then t else interval_step t)"

text \<open>
  One tick of the timer with index \<open>i\<close>. A timer that has been cleared does not fire
  again, and an index that names no timer is no event.
\<close>

definition interval_fires :: "(int \<Rightarrow> string) \<Rightarrow> nat \<Rightarrow> document_state \<Rightarrow> document_state" where
  "interval_fires toLocaleString i s =
     (if i < length (intervals s) \<and> \<not> cleared (intervals s ! i)
      then let t = interval_step (intervals s ! i);
               e = timer_element t
           in s\<lparr>intervals := (intervals s)[i := t],
                elements := (elements s)(e := (elements s e)\<lparr>textContent := interval_text toLocaleString t\<rparr>)\<rparr>
      else s)"

text \<open>
  The observer callback of initializeCounters:
  \<^verbatim>\<open>
  entries.forEach(entry => {
      if (entry.isIntersecting) {
          const counter = counters.find(c => c.element === entry.target);
          if (counter && !counter.element.classList.contains('counting')) {
              animateCounter(counter.element, counter.target, counter.suffix);
              counterObserver.unobserve(entry.target);
          }
      }
  });
  \<close>
\<close>

definition counter_entry :: "counter list \<Rightarrow> io_entry \<Rightarrow> document_state \<Rightarrow> document_state" where
  "counter_entry counters entry s =
     (if isIntersecting entry
      then case find (\<lambda>c. counter_element c = Some (entry_target entry)) counters of
             None \<Rightarrow> s
           | Some c \<Rightarrow>
               (case counter_element c of
                  None \<Rightarrow> s
                | Some element \<Rightarrow>
                    if \<not> classList_contains ''counting'' (classList (elements s element))
                    then let s1 = animateCounter element (counter_target c) (counter_suffix c) s
                         in s1\<lparr>counter_observed := counter_observed s1 - {entry_target entry}\<rparr>
                    else s)
      else s)"

definition counter_callback :: "counter list \<Rightarrow> io_entry list \<Rightarrow> document_state \<Rightarrow> document_state" where
  "counter_callback counters entries s = fold (counter_entry counters) entries s"

text \<open>
  \<^verbatim>\<open>
  counters.forEach(counter => {
      if (counter.element) { counterObserver.observe(counter.element); }
  });
  \<close>
\<close>

definition initializeCounters :: "counter list \<Rightarrow> document_state \<Rightarrow> document_state" where
  "initializeCounters counters s =
     s\<lparr>counter_observed := set (List.map_filter counter_element counters)\<rparr>"

text \<open>
  What happens to the counters after the page has loaded: the observer's callback runs
  on a batch of entries, or an interval timer ticks.
\<close>

datatype counter_event = Intersections "io_entry list" | Tick nat

fun counter_event_step ::
  "(int \<Rightarrow> string) \<Rightarrow> counter list \<Rightarrow> counter_event \<Rightarrow> document_state \<Rightarrow> document_state" where
  "counter_event_step toLocaleString counters (Intersections entries) s = counter_callback counters entries s"
| "counter_event_step toLocaleString counters (Tick i) s = interval_fires toLocaleString i s"

definition run_counter_events ::
  "(int \<Rightarrow> string) \<Rightarrow> counter list \<Rightarrow> counter_event list \<Rightarrow> document_state \<Rightarrow> document_state" where
  "run_counter_events toLocaleString counters events s =
     fold (counter_event_step toLocaleString counters) events s"

text \<open>The number of animations (interval timers) ever started on an element.\<close>

definition animations_of :: "string \<Rightarrow> document_state \<Rightarrow> nat" where
  "animations_of e s = length (filter (\<lambda>t. timer_element t = e) (intervals s))"

text \<open>
  The invariant of the counter observer: an element has at most one interval timer, and
  an element that has one carries the class \<^verbatim>\<open>counting\<close> and is not observed.
\<close>

definition counters_inv :: "document_state \<Rightarrow> bool" where
  "counters_inv s =
     (\<forall>e. animations_of e s \<le> 1
        \<and> (animations_of e s = 1
             \<longrightarrow> ''counting'' \<in> set (classList (elements s e)) \<and> e \<notin> counter_observed s))"

subsection \<open>The mock form handlers\<close>

text \<open>
  Strings are lists of 8-bit characters, read as the code units U+0000 to U+00FF.
  \<^verbatim>\<open>String.prototype.trim\<close> removes the white space and line terminators at both
  ends; in this range they are tab, line feed, vertical tab, form feed, carriage
  return, space and the no-break space.
\<close>

definition is_space :: "char \<Rightarrow> bool" where
  "is_space c = (c \<in> set [CHR 0x09, CHR 0x0A, CHR 0x0B, CHR 0x0C, CHR 0x0D, CHR 0x20, CHR 0xA0])"

definition trim :: "string \<Rightarrow> string" where
  "trim str = rev (dropWhile is_space (rev (dropWhile is_space str)))"

text \<open>
  A form control: its value, the value that \<^verbatim>\<open>form.reset()\<close> restores, the
  constraint that the browser's validation checks (required, type, pattern), and its
  class list.
\<close>

record form_field =
  field_value :: string
  field_default :: string
  field_constraint :: "string \<Rightarrow> bool"
  field_classList :: "string list"

definition checkValidity :: "form_field \<Rightarrow> bool" where
  "checkValidity f = field_constraint f (field_value f)"

definition reset_field :: "form_field \<Rightarrow> form_field" where
  "reset_field f = f\<lparr>field_value := field_default f\<rparr>"

text \<open>
  The button of the info request form, which the script finds by its id and of which it
  reads and writes \<^verbatim>\<open>innerHTML\<close> and \<^verbatim>\<open>disabled\<close>.
\<close>

record button =
  innerHTML :: string
  disabled :: bool

text \<open>
  The element that \<^verbatim>\<open>event.target\<close> names in submitApplication: the element on
  which the click landed, which is the submit button or an element inside it. The
  record holds its tag name in lower case, the markup that its content was parsed from, and its
  \<^verbatim>\<open>disabled\<close> property. Assigning to \<^verbatim>\<open>innerHTML\<close> replaces the content by what
  the HTML parser makes of the assigned string.
\<close>

record target_element =
  el_tag :: string
  el_markup :: string
  el_disabled :: bool

text \<open>
  The text of markup, for a part of HTML in which it can be read off: character data,
  the character references \<^verbatim>\<open>&lt;\<close>, \<^verbatim>\<open>&gt;\<close> and \<^verbatim>\<open>&amp;\<close>, and the start and end
  tags, in lower case and without attributes, of the elements \<^verbatim>\<open>b\<close>, \<^verbatim>\<open>i\<close>,
  \<^verbatim>\<open>em\<close>, \<^verbatim>\<open>strong\<close> and \<^verbatim>\<open>span\<close>, where every end tag closes the element
  opened last. The text is then the character data in order, with the references
  decoded and the tags left out. For any other markup (another tag or reference, a
  lone \<^verbatim>\<open><\<close> or \<^verbatim>\<open>&\<close>, a NUL or a carriage return) the result is \<open>None\<close>: the
  model does not say what the parser makes of it.
\<close>

definition inline_tags :: "string list" where
  "inline_tags = [''b'', ''i'', ''em'', ''strong'', ''span'']"

definition tag_closed :: "string \<Rightarrow> bool" where
  "tag_closed cs = (dropWhile (\<lambda>d. d \<noteq> CHR ''>'') cs \<noteq> [])"

definition tag_name :: "string \<Rightarrow> string" where
  "tag_name cs = takeWhile (\<lambda>d. d \<noteq> CHR ''>'') cs"

definition after_tag :: "string \<Rightarrow> string" where
  "after_tag cs = tl (dropWhile (\<lambda>d. d \<noteq> CHR ''>'') cs)"

lemma length_after_tag: "length (after_tag cs) \<le> length cs"
proof -
  have "length (tl (dropWhile (\<lambda>d. d \<noteq> CHR ''>'') cs))
      \<le> length (dropWhile (\<lambda>d. d \<noteq> CHR ''>'') cs)" by simp
  also have "\<dots> \<le> length cs" by (rule length_dropWhile_le)
  finally show ?thesis by (simp add: after_tag_def)
qed

function html_text :: "string list \<Rightarrow> string \<Rightarrow> string option" where
  "html_text open_elements [] = Some []"
| "html_text open_elements (c # cs) =
     (if c = CHR 0x00 \<or> c = CHR 0x0D then None
      else if c = CHR ''&'' then
        (if take 3 cs = ''lt;''
         then map_option (Cons (CHR ''<'')) (html_text open_elements (drop 3 cs))
         else if take 3 cs = ''gt;''
         then map_option (Cons (CHR ''>'')) (html_text open_elements (drop 3 cs))
         else if take 4 cs = ''amp;''
         then map_option (Cons (CHR ''&'')) (html_text open_elements (drop 4 cs))
         else None)
      else if c = CHR ''<'' then
        (if \<not> tag_closed cs then None
         else if tag_name cs \<in> set inline_tags
         then html_text (tag_name cs # open_elements) (after_tag cs)
         else (case open_elements of
                 [] \<Rightarrow> None
               | opened # others \<Rightarrow>
                   if tag_name cs = CHR ''/'' # opened then html_text others (after_tag cs)
                   else None))
      else map_option (Cons c) (html_text open_elements cs))"
  by pat_completeness auto
termination
proof (relation "measure (\<lambda>(open_elements, cs). length cs)")
  show "wf (measure (\<lambda>(open_elements, cs). length cs))" by simp
qed (auto simp: length_after_tag less_Suc_eq_le)

text \<open>
  The parser reads markup in this way inside a button and inside the elements above,
  so the text is taken from \<open>html_text\<close> for these. Everywhere else the
  \<^verbatim>\<open>textContent\<close> is the browser's, a parameter of the page (\<open>browser_text\<close>, from
  the tag name of the element and the markup of its content).
\<close>

definition parsed_as_phrasing :: "string \<Rightarrow> bool" where
  "parsed_as_phrasing t = (t = ''button'' \<or> t \<in> set inline_tags)"

text \<open>The toast of showSuccessMessage and the inline element \<^verbatim>\<open>#infoSuccess\<close>.\<close>

record success_div =
  sd_className :: string
  sd_textContent :: string
  sd_display :: string

record info_success =
  is_classList :: "string list"
  is_textContent :: string

text \<open>
  The objects that the handlers build and log. \<^verbatim>\<open>new Date().toISOString()\<close> is
  modelled by the reading of the clock, in milliseconds.
\<close>

record form_data =
  fd_firstName :: string
  fd_lastName :: string
  fd_email :: string
  fd_program :: string
  fd_startDate :: string
  fd_submittedAt :: nat

record payload =
  pl_firstName :: string
  pl_lastName :: string
  pl_email :: string
  pl_interest :: string
  pl_message :: string
  pl_submittedAt :: nat

datatype log_entry =
    ApplicationSubmitted form_data
  | InfoRequestSubmitted payload
  | EventTracked string string

text \<open>
  The callbacks passed to \<^verbatim>\<open>setTimeout\<close>, with the variables they close over: the
  callback of submitApplication (\<open>formData\<close>, \<open>originalText\<close>), the one of
  showSuccessMessage, and the one of submitInfoRequest (\<open>payload\<close>, \<open>original\<close>).
\<close>

datatype task =
    ApplicationDone form_data string
  | HideSuccessMessage
  | InfoRequestDone payload string

text \<open>
  The page as the form handlers see it: the clock, the pending timeouts ordered by the
  time they are due, the console, the exceptions that ended a callback, the controls of
  the application form, the element that the click on its button landed on, the modal,
  the toast, and the info request form.
\<close>

record page =
  now :: nat
  timeouts :: "(nat \<times> task) list"
  console :: "log_entry list"
  uncaught :: "js_error list"
  firstName :: form_field
  lastName :: form_field
  email :: form_field
  program :: form_field
  startDate :: form_field
  event_target :: target_element
  browser_text :: "string \<Rightarrow> string \<Rightarrow> string"
  modal_instance :: bool
  modal_shown :: bool
  successDiv :: "success_div option"
  infoRequestForm :: bool
  riFirstName :: form_field
  riLastName :: form_field
  riEmail :: form_field
  riInterest :: form_field
  riMessage :: form_field
  infoSubmitBtn :: button
  infoSuccess :: "info_success option"

definition element_textContent :: "page \<Rightarrow> target_element \<Rightarrow> string" where
  "element_textContent s e =
     (if parsed_as_phrasing (el_tag e)
      then (case html_text [] (el_markup e) of
              Some t \<Rightarrow> t
            | None \<Rightarrow> browser_text s (el_tag e) (el_markup e))
      else browser_text s (el_tag e) (el_markup e))"

text \<open>
  \<^verbatim>\<open>setTimeout(callback, delay)\<close>: the callback is due \<open>delay\<close> milliseconds
  from now, after the callbacks that are due at the same time and were set earlier.
\<close>

fun enqueue :: "nat \<times> task \<Rightarrow> (nat \<times> task) list \<Rightarrow> (nat \<times> task) list" where
  "enqueue x [] = [x]"
| "enqueue x (y # ys) = (if fst y \<le> fst x then y # enqueue x ys else x # y # ys)"

definition setTimeout :: "task \<Rightarrow> nat \<Rightarrow> page \<Rightarrow> page" where
  "setTimeout callback delay s = s\<lparr>timeouts := enqueue (now s + delay, callback) (timeouts s)\<rparr>"

text \<open>
  \<^verbatim>\<open>function trackEvent(eventName, eventData) {
      console.log(`Event tracked: ${eventName}`, eventData); }\<close>
\<close>

definition trackEvent :: "string \<Rightarrow> string \<Rightarrow> page \<Rightarrow> page" where
  "trackEvent eventName eventData s = s\<lparr>console := console s @ [EventTracked eventName eventData]\<rparr>"

text \<open>
  \<^verbatim>\<open>
  function showSuccessMessage(message) {
      let successDiv = document.querySelector('.success-message');
      if (!successDiv) {
          successDiv = document.createElement('div');
          successDiv.className = 'success-message';
          document.body.appendChild(successDiv);
      }
      successDiv.textContent = message;
      successDiv.style.display = 'block';
      setTimeout(() => { successDiv.style.display = 'none'; }, 5000);
  }
  \<close>
\<close>

definition success_toast :: "string \<Rightarrow> page \<Rightarrow> success_div" where
  "success_toast message s =
     (let found = (case successDiv s of
                     None \<Rightarrow> \<lparr>sd_className = ''success-message'', sd_textContent = [], sd_display = []\<rparr>
                   | Some d \<Rightarrow> d)
      in found\<lparr>sd_textContent := message, sd_display := ''block''\<rparr>)"

definition showSuccessMessage :: "string \<Rightarrow> page \<Rightarrow> page" where
  "showSuccessMessage message s =
     setTimeout HideSuccessMessage 5000 (s\<lparr>successDiv := Some (success_toast message s)\<rparr>)"

definition hide_success :: "page \<Rightarrow> page" where
  "hide_success s = s\<lparr>successDiv := map_option (\<lambda>d. d\<lparr>sd_display := ''none''\<rparr>) (successDiv s)\<rparr>"

text \<open>\<^verbatim>\<open>form.checkValidity()\<close> and \<^verbatim>\<open>form.reset()\<close> of the application form.\<close>

definition application_checkValidity :: "page \<Rightarrow> bool" where
  "application_checkValidity s =
     (checkValidity (firstName s) \<and> checkValidity (lastName s) \<and> checkValidity (email s)
      \<and> checkValidity (program s) \<and> checkValidity (startDate s))"

definition application_reset :: "page \<Rightarrow> page" where
  "application_reset s =
     s\<lparr>firstName := reset_field (firstName s), lastName := reset_field (lastName s),
       email := reset_field (email s), program := reset_field (program s),
       startDate := reset_field (startDate s)\<rparr>"

definition info_reset :: "page \<Rightarrow> page" where
  "info_reset s =
     s\<lparr>riFirstName := reset_field (riFirstName s), riLastName := reset_field (riLastName s),
       riEmail := reset_field (riEmail s), riInterest := reset_field (riInterest s),
       riMessage := reset_field (riMessage s)\<rparr>"

definition application_success_text :: string where
  "application_success_text =
     ''Application submitted successfully! We'll contact you within 2 business days.''"

definition info_success_text :: string where
  "info_success_text = ''Thank you! Your request has been received. We will respond shortly.''"

definition submitting_markup :: string where
  \<open>submitting_markup = ''<span class="loading"></span> Submitting...''\<close>

definition sending_markup :: string where
  \<open>sending_markup = ''<span class="loading"></span> Sending...''\<close>

text \<open>
  \<^verbatim>\<open>
  function showApplicationForm() {
      const modal = new bootstrap.Modal(document.getElementById('applicationModal'));
      modal.show();
      ...
  }
  \<close>
\<close>

definition showApplicationForm :: "page \<Rightarrow> page" where
  "showApplicationForm s = s\<lparr>modal_instance := True, modal_shown := True\<rparr>"

text \<open>
  The timeout callbacks. In the callback of submitApplication,
  \<^verbatim>\<open>bootstrap.Modal.getInstance\<close> gives null when no modal instance was created, and
  \<^verbatim>\<open>modal.hide()\<close> then throws a TypeError that ends the callback.
  \<^verbatim>\<open>
  setTimeout(() => {
      console.log('Application submitted:', formData);
      showSuccessMessage('Application submitted successfully! ...');
      form.reset();
      const modal = bootstrap.Modal.getInstance(document.getElementById('applicationModal'));
      modal.hide();
      submitButton.innerHTML = originalText;
      submitButton.disabled = false;
      trackEvent('application_submitted', formData.program);
  }, 2000);
  \<close>
  \<^verbatim>\<open>
  setTimeout(() => {
      console.log('Info request submitted', payload);
      const success = document.getElementById('infoSuccess');
      if (success) {
          success.classList.remove('d-none');
          success.textContent = 'Thank you! Your request has been received. ...';
      }
      form.reset();
      btn.disabled = false;
      btn.innerHTML = original;
      trackEvent('info_request_submitted', payload.interest);
  }, 1500);
  \<close>
\<close>

fun run_task :: "task \<Rightarrow> page \<Rightarrow> page" where
  "run_task (ApplicationDone formData originalText) s =
     (let s1 = s\<lparr>console := console s @ [ApplicationSubmitted formData]\<rparr>;
          s2 = showSuccessMessage application_success_text s1;
          s3 = application_reset s2
      in if \<not> modal_instance s3 then s3\<lparr>uncaught := uncaught s3 @ [TypeError]\<rparr>
         else let s4 = s3\<lparr>modal_shown := False\<rparr>;
                  s5 = s4\<lparr>event_target :=
                     (event_target s4)\<lparr>el_markup := originalText, el_disabled := False\<rparr>\<rparr>
              in trackEvent ''application_submitted'' (fd_program formData) s5)"
| "run_task HideSuccessMessage s = hide_success s"
| "run_task (InfoRequestDone payload original) s =
     (let s1 = s\<lparr>console := console s @ [InfoRequestSubmitted payload]\<rparr>;
          s2 = (case infoSuccess s1 of
                  None \<Rightarrow> s1
                | Some success \<Rightarrow>
                    s1\<lparr>infoSuccess := Some \<lparr>is_classList = classList_remove ''d-none'' (is_classList success),
                                             is_textContent = info_success_text\<rparr>\<rparr>);
          s3 = info_reset s2;
          s4 = s3\<lparr>infoSubmitBtn := \<lparr>innerHTML = original, disabled = False\<rparr>\<rparr>
      in trackEvent ''info_request_submitted'' (pl_interest payload) s4)"

text \<open>
  \<^verbatim>\<open>
  function submitApplication() {
      const form = document.getElementById('applicationForm');
      const submitButton = event.target;
      if (!form.checkValidity()) {
          form.reportValidity();
          return;
      }
      const originalText = submitButton.textContent;
      submitButton.innerHTML = '<span class="loading"></span> Submitting...';
      submitButton.disabled = true;
      const formData = { firstName: ..., lastName: ..., email: ..., program: ...,
                         startDate: ..., submittedAt: new Date().toISOString() };
      setTimeout(() => { ... }, 2000);
  }
  \<close>
  \<^verbatim>\<open>form.reportValidity()\<close> shows the browser's validation message; it changes
  nothing that the script reads. The variable \<^verbatim>\<open>submitButton\<close> is the target of the
  click event, whether or not that element is the button.
\<close>

definition submitApplication :: "page \<Rightarrow> page" where
  "submitApplication s =
     (if \<not> application_checkValidity s then s
      else let submitButton = event_target s;
               originalText = element_textContent s submitButton;
               s1 = s\<lparr>event_target :=
                      submitButton\<lparr>el_markup := submitting_markup, el_disabled := True\<rparr>\<rparr>;
               formData = \<lparr>fd_firstName = field_value (firstName s1),
                           fd_lastName = field_value (lastName s1),
                           fd_email = field_value (email s1),
                           fd_program = field_value (program s1),
                           fd_startDate = field_value (startDate s1),
                           fd_submittedAt = now s1\<rparr>
           in setTimeout (ApplicationDone formData originalText) 2000 s1)"

text \<open>
  \<^verbatim>\<open>
  function submitInfoRequest() {
      const form = document.getElementById('infoRequestForm');
      if (!form) return;
      const requiredIds = ['riFirstName','riLastName','riEmail'];
      let valid = true;
      requiredIds.forEach(id => {
          const field = document.getElementById(id);
          if (!field.checkValidity()) {
              field.classList.add('is-invalid');
              valid = false;
          }
      });
      if (!valid) return;
      const btn = document.getElementById('infoSubmitBtn');
      const original = btn.innerHTML;
      btn.disabled = true;
      btn.innerHTML = '<span class="loading"></span> Sending...';
      const payload = {
          firstName: document.getElementById('riFirstName').value.trim(),
          lastName: document.getElementById('riLastName').value.trim(),
          email: document.getElementById('riEmail').value.trim(),
          interest: document.getElementById('riInterest').value,
          message: document.getElementById('riMessage').value.trim(),
          submittedAt: new Date().toISOString()
      };
      setTimeout(() => { ... }, 1500);
  }
  \<close>
\<close>

definition mark_invalid :: "form_field \<Rightarrow> form_field" where
  "mark_invalid f =
     (if \<not> checkValidity f
      then f\<lparr>field_classList := classList_add ''is-invalid'' (field_classList f)\<rparr>
      else f)"

definition info_required_valid :: "page \<Rightarrow> bool" where
  "info_required_valid s =
     (checkValidity (riFirstName s) \<and> checkValidity (riLastName s) \<and> checkValidity (riEmail s))"

definition submitInfoRequest :: "page \<Rightarrow> page" where
  "submitInfoRequest s =
     (if \<not> infoRequestForm s then s
      else let valid = info_required_valid s;
               s1 = s\<lparr>riFirstName := mark_invalid (riFirstName s),
                       riLastName := mark_invalid (riLastName s),
                       riEmail := mark_invalid (riEmail s)\<rparr>
           in if \<not> valid then s1
              else let original = innerHTML (infoSubmitBtn s1);
                       s2 = s1\<lparr>infoSubmitBtn := \<lparr>innerHTML = sending_markup, disabled = True\<rparr>\<rparr>;
                       payload = \<lparr>pl_firstName = trim (field_value (riFirstName s2)),
                                  pl_lastName = trim (field_value (riLastName s2)),
                                  pl_email = trim (field_value (riEmail s2)),
                                  pl_interest = field_value (riInterest s2),
                                  pl_message = trim (field_value (riMessage s2)),
                                  pl_submittedAt = now s2\<rparr>
                   in setTimeout (InfoRequestDone payload original) 1500 s2)"

text \<open>
  The event loop: time passes up to \<open>t\<close>, and every timeout that is due by then runs,
  in the order of the queue, at the time it is due. A callback may set further timeouts;
  the callbacks of this page set at most one, of a kind that sets none, which is why the
  loop ends.
\<close>

fun task_weight :: "task \<Rightarrow> nat" where
  "task_weight (ApplicationDone formData originalText) = 2"
| "task_weight HideSuccessMessage = 1"
| "task_weight (InfoRequestDone payload original) = 1"

definition pending_weight :: "page \<Rightarrow> nat" where
  "pending_weight s = sum_list (map (\<lambda>x. task_weight (snd x)) (timeouts s))"

lemma weight_enqueue:
  "sum_list (map (\<lambda>x. task_weight (snd x)) (enqueue x ts))
     = task_weight (snd x) + sum_list (map (\<lambda>x. task_weight (snd x)) ts)"
  by (induction ts) simp_all

lemma pending_weight_setTimeout:
  "pending_weight (setTimeout callback delay s) = task_weight callback + pending_weight s"
  by (simp add: pending_weight_def setTimeout_def weight_enqueue)

lemma pending_weight_run_task:
  "pending_weight (run_task callback s) + 1 \<le> pending_weight s + task_weight callback"
proof (cases callback)
  case (ApplicationDone formData originalText)
  have "pending_weight (showSuccessMessage m s') = 1 + pending_weight s'" for m s'
    by (simp add: showSuccessMessage_def pending_weight_setTimeout)
      (simp add: pending_weight_def)
  then show ?thesis
    using ApplicationDone
    by (simp add: Let_def pending_weight_def trackEvent_def application_reset_def)
next
  case HideSuccessMessage
  then show ?thesis by (simp add: hide_success_def pending_weight_def)
next
  case (InfoRequestDone payload original)
  then show ?thesis
    by (simp add: Let_def pending_weight_def trackEvent_def info_reset_def split: option.splits)
qed

function advance_to :: "nat \<Rightarrow> page \<Rightarrow> page" where
  "advance_to t s =
     (case timeouts s of
        [] \<Rightarrow> s\<lparr>now := max (now s) t\<rparr>
      | (due, callback) # rest \<Rightarrow>
          if due \<le> t
          then advance_to t (run_task callback (s\<lparr>now := max (now s) due, timeouts := rest\<rparr>))
          else s\<lparr>now := max (now s) t\<rparr>)"
  by pat_completeness auto
termination
proof (relation "measure (\<lambda>(t, s). pending_weight s)")
  show "wf (measure (\<lambda>(t, s). pending_weight s))" by simp
next
  fix t :: nat and s :: page and x xs due callback
  assume q: "timeouts s = x # xs" and x: "(due, callback) = x"
  let ?s0 = "s\<lparr>now := max (now s) due, timeouts := xs\<rparr>"
  have "pending_weight s = task_weight callback + pending_weight ?s0"
    using q x by (auto simp: pending_weight_def)
  with pending_weight_run_task [of callback ?s0]
  show "((t, run_task callback ?s0), (t, s)) \<in> measure (\<lambda>(t, s). pending_weight s)"
    by simp
qed

declare advance_to.simps [simp del]


text \<open>
  A page for the examples: both forms filled in, the first name with white space around
  it, the click on the submit button itself, no modal instance yet, the info success
  element hidden by \<^verbatim>\<open>d-none\<close>. The second page has the modal open and a button
  whose label shows the text \<^verbatim>\<open>a <b> c\<close>, written with character references.
\<close>

definition required_field :: "string \<Rightarrow> form_field" where
  "required_field v =
     \<lparr>field_value = v, field_default = [], field_constraint = (\<lambda>x. x \<noteq> []),
      field_classList = [''form-control'']\<rparr>"

definition optional_field :: "string \<Rightarrow> form_field" where
  "optional_field v =
     \<lparr>field_value = v, field_default = [], field_constraint = (\<lambda>x. True),
      field_classList = [''form-control'']\<rparr>"

definition sample_page :: page where
  "sample_page =
     \<lparr>now = 1000, timeouts = [], console = [], uncaught = [],
      firstName = required_field '' Ada '', lastName = required_field ''Lovelace'',
      email = required_field ''ada@example.org'', program = required_field ''computer-science'',
      startDate = required_field ''2026-09'',
      event_target = \<lparr>el_tag = ''button'', el_markup = ''Submit Application'',
                      el_disabled = False\<rparr>,
      browser_text = (\<lambda>t m. []),
      modal_instance = False, modal_shown = False, successDiv = None,
      infoRequestForm = True,
      riFirstName = required_field '' Ada '', riLastName = required_field ''Lovelace'',
      riEmail = required_field ''ada@example.org'', riInterest = optional_field '' visit '',
      riMessage = optional_field ''Hello  '',
      infoSubmitBtn = \<lparr>innerHTML = ''Request Info'', disabled = False\<rparr>,
      infoSuccess = Some \<lparr>is_classList = [''alert'', ''d-none''], is_textContent = []\<rparr>\<rparr>"

definition markup_label_page :: page where
  "markup_label_page =
     (showApplicationForm sample_page)
       \<lparr>event_target := \<lparr>el_tag = ''button'', el_markup = ''a &lt;b&gt; c'',
                          el_disabled = False\<rparr>\<rparr>"

section \<open>Properties\<close>

subsection \<open>Class lists\<close>

lemma classList_add_member: "c \<in> set (classList_add c cs)"
  by (simp add: classList_add_def)

lemma classList_add_set: "set (classList_add c cs) = insert c (set cs)"
  by (auto simp: classList_add_def)

lemma classList_remove_set: "set (classList_remove c cs) = set cs - {c}"
  by (auto simp: classList_remove_def)

lemma classList_add_idem: "c \<in> set cs \<Longrightarrow> classList_add c cs = cs"
  by (simp add: classList_add_def)

subsection \<open>Anchor clicks\<close>

text \<open>
  When querySelector resolves the href to an element, the click cancels the default
  navigation and issues exactly one scroll command, to the element's offset minus the
  80 pixel header, with smooth behaviour. When it resolves to null, the click cancels
  the navigation and does nothing else.
\<close>

lemma anchor_click_resolved:
  assumes "querySelector engine href doc = Inr (Some el)"
  shows "anchor_click engine href doc
         = \<lparr>defaultPrevented = True,
            scrollTo_calls = [\<lparr>scroll_top = offsetTop el - 80, behavior = ''smooth''\<rparr>],
            thrown = None\<rparr>"
  using assms by (simp add: anchor_click_def)

lemma anchor_click_null:
  assumes "querySelector engine href doc = Inr None"
  shows "anchor_click engine href doc
         = \<lparr>defaultPrevented = True, scrollTo_calls = [], thrown = None\<rparr>"
  using assms by (simp add: anchor_click_def)

lemma anchor_click_always_prevents_default:
  "defaultPrevented (anchor_click engine href doc)"
  by (simp add: anchor_click_def split: sum.splits option.splits)

lemmas selector_eval =
  selector_form_def begins_identifier_def name_start_def name_char_def ascii_letter_def
  ascii_digit_def unmodelled_char_def

lemma selector_form_examples:
  "selector_form ''#programs'' = IdSelector ''programs''"
  "selector_form ''#-intro'' = IdSelector ''-intro''"
  "selector_form ''#'' = NotASelector"
  "selector_form ''#1abc'' = NotASelector"
  "selector_form ''#-1'' = NotASelector"
  "selector_form ''#programs .card'' = OtherSelector"
  by (simp_all add: selector_eval)

lemma anchor_click_programs:
  "anchor_click engine ''#programs'' programs_page
   = \<lparr>defaultPrevented = True,
      scrollTo_calls = [\<lparr>scroll_top = 1160, behavior = ''smooth''\<rparr>],
      thrown = None\<rparr>"
  "anchor_click engine ''#-intro'' programs_page
   = \<lparr>defaultPrevented = True,
      scrollTo_calls = [\<lparr>scroll_top = 520, behavior = ''smooth''\<rparr>],
      thrown = None\<rparr>"
  "anchor_click engine ''#contact'' programs_page
   = \<lparr>defaultPrevented = True, scrollTo_calls = [], thrown = None\<rparr>"
  by (simp_all add: anchor_click_def querySelector_def selector_form_examples
        programs_page_def selector_eval)

text \<open>
  C7. The specification has a click on a same-page anchor whose target element exists
  cancel the default navigation and scroll smoothly to the target's top offset minus
  80 pixels. The handler looks the target up by passing the href to querySelector as a
  CSS selector, and an id that HTML allows need not be a CSS identifier. On the page
  \<open>digit_id_page\<close> the element with the id \<^verbatim>\<open>1abc\<close> exists, at offset 1240; a click
  on the link \<^verbatim>\<open>href="#1abc"\<close> cancels the default navigation, querySelector throws
  a SyntaxError that the handler does not catch, and no scroll command is issued,
  where the specification has one to 1160. This holds whatever the browser does with the
  selectors that the model leaves to \<open>engine\<close>.
\<close>

theorem anchor_click_digit_id_no_scroll:
  "find (\<lambda>e. target_id e = ''1abc'') (doc_elements digit_id_page)
     = Some \<lparr>target_id = ''1abc'', offsetTop = 1240\<rparr>
   \<and> anchor_click engine ''#1abc'' digit_id_page
     = \<lparr>defaultPrevented = True, scrollTo_calls = [], thrown = Some SyntaxError\<rparr>"
  by (simp add: anchor_click_def querySelector_def digit_id_page_def selector_eval)

subsection \<open>The active navigation link\<close>









subsection \<open>The fade-in and reveal observers\<close>

lemma add_class_simps:
  "classList (elements (add_class e c s) e') =
     (if e' = e then classList_add c (classList (elements s e)) else classList (elements s e'))"
  "fade_observed (add_class e c s) = fade_observed s"
  "reveal_observed (add_class e c s) = reveal_observed s"
  "counter_observed (add_class e c s) = counter_observed s"
  "intervals (add_class e c s) = intervals s"
  by (simp_all add: add_class_def)

lemma add_class_present:
  "c \<in> set (classList (elements s e)) \<Longrightarrow> add_class e c s = s"
  by (simp add: add_class_def classList_add_idem)

lemma fade_entry_observed: "fade_observed (fade_entry entry s) = fade_observed s"
  by (simp add: fade_entry_def add_class_simps)

lemma fade_callback_observed: "fade_observed (fade_callback entries s) = fade_observed s"
  unfolding fade_callback_def
  by (induction entries arbitrary: s) (simp_all add: fade_entry_observed)

lemma fade_entry_keeps_show:
  "''show'' \<in> set (classList (elements s e))
     \<Longrightarrow> ''show'' \<in> set (classList (elements (fade_entry entry s) e))"
  by (simp add: fade_entry_def add_class_simps classList_add_set)

lemma fade_callback_keeps_show:
  "''show'' \<in> set (classList (elements s e))
     \<Longrightarrow> ''show'' \<in> set (classList (elements (fade_callback entries s) e))"
  unfolding fade_callback_def
  by (induction entries arbitrary: s) (simp_all add: fade_entry_keeps_show)

lemma fade_callback_adds_show:
  "entry \<in> set entries \<Longrightarrow> isIntersecting entry
     \<Longrightarrow> ''show'' \<in> set (classList (elements (fade_callback entries s) (entry_target entry)))"
proof (induction entries arbitrary: s)
  case Nil
  then show ?case by simp
next
  case (Cons x xs)
  show ?case
  proof (cases "entry = x")
    case True
    with Cons.prems have "''show'' \<in> set (classList (elements (fade_entry x s) (entry_target entry)))"
      by (simp add: fade_entry_def add_class_simps classList_add_set)
    from fade_callback_keeps_show [OF this, of xs] show ?thesis
      by (simp add: fade_callback_def)
  next
    case False
    with Cons.prems have "entry \<in> set xs" by simp
    from Cons.IH [OF this Cons.prems(2), of "fade_entry x s"] show ?thesis
      by (simp add: fade_callback_def)
  qed
qed

lemma fade_entry_shown_unchanged:
  "''show'' \<in> set (classList (elements s e)) \<Longrightarrow> elements (fade_entry entry s) e = elements s e"
  by (auto simp: fade_entry_def add_class_def classList_add_idem)

lemma fade_callback_shown_unchanged:
  "''show'' \<in> set (classList (elements s e)) \<Longrightarrow> elements (fade_callback entries s) e = elements s e"
proof (induction entries arbitrary: s)
  case Nil
  then show ?case by (simp add: fade_callback_def)
next
  case (Cons x xs)
  have "''show'' \<in> set (classList (elements (fade_entry x s) e))"
    using Cons.prems by (rule fade_entry_keeps_show)
  from Cons.IH [OF this] fade_entry_shown_unchanged [OF Cons.prems, of x]
  show ?case by (simp add: fade_callback_def)
qed

lemma reveal_entry_observed_subset:
  "reveal_observed (reveal_entry entry s) \<subseteq> reveal_observed s"
  by (auto simp: reveal_entry_def Let_def add_class_simps set_reveal_delay_def)

lemma reveal_callback_observed_subset:
  "reveal_observed (reveal_callback entries s) \<subseteq> reveal_observed s"
proof (induction entries arbitrary: s)
  case Nil
  then show ?case by (simp add: reveal_callback_def)
next
  case (Cons x xs)
  from Cons.IH [of "reveal_entry x s"] reveal_entry_observed_subset [of x s]
  show ?case by (auto simp: reveal_callback_def)
qed

lemma reveal_entry_keeps_visible:
  "''visible'' \<in> set (classList (elements s e))
     \<Longrightarrow> ''visible'' \<in> set (classList (elements (reveal_entry entry s) e))"
  by (auto simp: reveal_entry_def Let_def add_class_def set_reveal_delay_def classList_add_set)

lemma reveal_callback_keeps_visible:
  "''visible'' \<in> set (classList (elements s e))
     \<Longrightarrow> ''visible'' \<in> set (classList (elements (reveal_callback entries s) e))"
  unfolding reveal_callback_def
  by (induction entries arbitrary: s) (simp_all add: reveal_entry_keeps_visible)

lemma reveal_entry_triggers:
  "isIntersecting entry
     \<Longrightarrow> entry_target entry \<notin> reveal_observed (reveal_entry entry s)
       \<and> ''visible'' \<in> set (classList (elements (reveal_entry entry s) (entry_target entry)))"
  by (auto simp: reveal_entry_def Let_def add_class_def set_reveal_delay_def classList_add_set)

lemma reveal_callback_triggers:
  "entry \<in> set entries \<Longrightarrow> isIntersecting entry
     \<Longrightarrow> entry_target entry \<notin> reveal_observed (reveal_callback entries s)
       \<and> ''visible'' \<in> set (classList (elements (reveal_callback entries s) (entry_target entry)))"
proof (induction entries arbitrary: s)
  case Nil
  then show ?case by simp
next
  case (Cons x xs)
  show ?case
  proof (cases "entry = x")
    case True
    from reveal_entry_triggers [OF Cons.prems(2), of s] True
    have 1: "entry_target entry \<notin> reveal_observed (reveal_entry x s)"
      and 2: "''visible'' \<in> set (classList (elements (reveal_entry x s) (entry_target entry)))"
      by simp_all
    from 1 reveal_callback_observed_subset [of xs "reveal_entry x s"]
      reveal_callback_keeps_visible [OF 2, of xs]
    show ?thesis by (auto simp: reveal_callback_def)
  next
    case False
    with Cons.prems have "entry \<in> set xs" by simp
    from Cons.IH [OF this Cons.prems(2), of "reveal_entry x s"] show ?thesis
      by (simp add: reveal_callback_def)
  qed
qed

lemma reveal_entry_other:
  "entry_target entry \<noteq> e \<Longrightarrow> elements (reveal_entry entry s) e = elements s e"
  by (simp add: reveal_entry_def Let_def add_class_def set_reveal_delay_def)

lemma reveal_callback_other:
  "\<forall>entry \<in> set entries. entry_target entry \<noteq> e
     \<Longrightarrow> elements (reveal_callback entries s) e = elements s e"
  unfolding reveal_callback_def
  by (induction entries arbitrary: s) (simp_all add: reveal_entry_other)

lemma deliver_reveal_unobserved:
  assumes "e \<notin> reveal_observed s"
  shows "elements (deliver reveal_observed reveal_callback entries s) e = elements s e"
    and "e \<notin> reveal_observed (deliver reveal_observed reveal_callback entries s)"
proof -
  let ?es = "filter (\<lambda>entry. entry_target entry \<in> reveal_observed s) entries"
  have "\<forall>entry \<in> set ?es. entry_target entry \<noteq> e" using assms by auto
  then show "elements (deliver reveal_observed reveal_callback entries s) e = elements s e"
    by (simp add: deliver_def reveal_callback_other)
  show "e \<notin> reveal_observed (deliver reveal_observed reveal_callback entries s)"
    using assms reveal_callback_observed_subset [of ?es s] by (auto simp: deliver_def)
qed

text \<open>
  C5, as the code has it. The reveal observer is one-shot: an intersecting entry adds
  \<^verbatim>\<open>visible\<close> and unobserves its target, and a later delivery neither changes an
  element that is no longer a target nor makes it a target again. The fade-in observer
  adds \<^verbatim>\<open>show\<close> at an intersecting entry and never unobserves: its targets stay
  what they were, so later entries for the element run the callback again; that leaves
  an element that already carries \<^verbatim>\<open>show\<close> as it is.
\<close>

theorem reveal_one_shot_fade_idempotent:
  "(entry \<in> set entries \<and> isIntersecting entry
      \<longrightarrow> entry_target entry \<notin> reveal_observed (reveal_callback entries s)
        \<and> ''visible'' \<in> set (classList (elements (reveal_callback entries s) (entry_target entry))))
   \<and> (e \<notin> reveal_observed s
      \<longrightarrow> elements (deliver reveal_observed reveal_callback later s) e = elements s e
        \<and> e \<notin> reveal_observed (deliver reveal_observed reveal_callback later s))
   \<and> (entry \<in> set entries \<and> isIntersecting entry
      \<longrightarrow> ''show'' \<in> set (classList (elements (fade_callback entries s) (entry_target entry))))
   \<and> fade_observed (fade_callback entries s) = fade_observed s
   \<and> (''show'' \<in> set (classList (elements s e))
      \<longrightarrow> elements (fade_callback later s) e = elements s e)"
  using reveal_callback_triggers [of entry entries s]
    deliver_reveal_unobserved [of e s later]
    fade_callback_adds_show [of entry entries s]
    fade_callback_observed [of entries s]
    fade_callback_shown_unchanged [of s e later]
  by blast

theorem reveal_one_shot_fade_idempotent_witness:
  "\<lparr>entry_target = ''card'', isIntersecting = True\<rparr>
      \<in> set [\<lparr>entry_target = ''card'', isIntersecting = True\<rparr>]
   \<and> isIntersecting \<lparr>entry_target = ''card'', isIntersecting = True\<rparr>
   \<and> ''card'' \<in> reveal_observed (initializeRevealAnimations [''card''] hero_page)
   \<and> ''card'' \<notin> reveal_observed
        (reveal_callback [\<lparr>entry_target = ''card'', isIntersecting = True\<rparr>]
          (initializeRevealAnimations [''card''] hero_page))
   \<and> ''visible'' \<in> set (classList (elements
        (reveal_callback [\<lparr>entry_target = ''card'', isIntersecting = True\<rparr>]
          (initializeRevealAnimations [''card''] hero_page)) ''card''))
   \<and> ''card'' \<notin> reveal_observed hero_page
   \<and> elements (deliver reveal_observed reveal_callback
        [\<lparr>entry_target = ''card'', isIntersecting = True\<rparr>] hero_page) ''card''
       = elements hero_page ''card''
   \<and> ''show'' \<in> set (classList (elements
        (fade_callback [\<lparr>entry_target = ''card'', isIntersecting = True\<rparr>]
          (initializeScrollEffects [''card''] hero_page)) ''card''))
   \<and> ''show'' \<in> set (classList (elements (add_class ''card'' ''show'' hero_page) ''card''))
   \<and> elements (fade_callback [\<lparr>entry_target = ''card'', isIntersecting = True\<rparr>]
          (add_class ''card'' ''show'' hero_page)) ''card''
       = elements (add_class ''card'' ''show'' hero_page) ''card''"
proof -
  let ?en = "\<lparr>entry_target = ''card'', isIntersecting = True\<rparr>"
  let ?r = "initializeRevealAnimations [''card''] hero_page"
  let ?f = "initializeScrollEffects [''card''] hero_page"
  let ?shown = "add_class ''card'' ''show'' hero_page"
  have m: "?en \<in> set [?en]" "isIntersecting ?en" by simp_all
  have obs: "''card'' \<in> reveal_observed ?r"
    by (simp add: initializeRevealAnimations_def)
  have un: "''card'' \<notin> reveal_observed hero_page" by (simp add: hero_page_def)
  have sh: "''show'' \<in> set (classList (elements ?shown ''card''))"
    by (simp add: add_class_simps classList_add_set)
  note t1 = reveal_one_shot_fade_idempotent [of ?en "[?en]" ?r "''card''" "[?en]"]
  note t2 = reveal_one_shot_fade_idempotent [of ?en "[?en]" hero_page "''card''" "[?en]"]
  note t3 = reveal_one_shot_fade_idempotent [of ?en "[?en]" ?f "''card''" "[?en]"]
  note t4 = reveal_one_shot_fade_idempotent [of ?en "[?en]" ?shown "''card''" "[?en]"]
  have a: "''card'' \<notin> reveal_observed (reveal_callback [?en] ?r)"
    "''visible'' \<in> set (classList (elements (reveal_callback [?en] ?r) ''card''))"
    using t1 m by simp_all
  have b: "elements (deliver reveal_observed reveal_callback [?en] hero_page) ''card''
       = elements hero_page ''card''"
    using t2 un by blast
  have c: "''show'' \<in> set (classList (elements (fade_callback [?en] ?f) ''card''))"
    using t3 m by simp
  have d: "elements (fade_callback [?en] ?shown) ''card'' = elements ?shown ''card''"
    using t4 sh by blast
  show ?thesis using m obs un sh a b c d by blast
qed

text \<open>
  C5 as the specification words it fails for the fade-in observer: after the
  entry that adds \<^verbatim>\<open>show\<close> the element is still an observation target, and the
  browser's next report for it runs the callback on it again.
\<close>

theorem fade_observer_counterexample:
  "''card'' \<in> fade_observed (initializeScrollEffects [''card''] hero_page)
   \<and> ''show'' \<notin> set (classList (elements (initializeScrollEffects [''card''] hero_page) ''card''))
   \<and> ''show'' \<in> set (classList (elements
        (deliver fade_observed fade_callback [\<lparr>entry_target = ''card'', isIntersecting = True\<rparr>]
          (initializeScrollEffects [''card''] hero_page)) ''card''))
   \<and> ''card'' \<in> fade_observed
        (deliver fade_observed fade_callback [\<lparr>entry_target = ''card'', isIntersecting = True\<rparr>]
          (initializeScrollEffects [''card''] hero_page))
   \<and> filter (\<lambda>entry. entry_target entry
          \<in> fade_observed
              (deliver fade_observed fade_callback [\<lparr>entry_target = ''card'', isIntersecting = True\<rparr>]
                (initializeScrollEffects [''card''] hero_page)))
        [\<lparr>entry_target = ''card'', isIntersecting = True\<rparr>]
       = [\<lparr>entry_target = ''card'', isIntersecting = True\<rparr>]"
  by (simp add: initializeScrollEffects_def hero_page_def deliver_def fade_callback_def
      fade_entry_def add_class_def plain_element_def classList_add_def)

subsection \<open>Rounding to binary64\<close>

lemma bit_length_pos: "0 < n \<Longrightarrow> bit_length n = Suc (bit_length (n div 2))"
  by (simp add: bit_length.simps)

lemma bit_length_nonpos: "n \<le> 0 \<Longrightarrow> bit_length n = 0"
  by (simp add: bit_length.simps)

lemma bit_length_bounds:
  "0 < n \<Longrightarrow> 2 ^ (bit_length n - 1) \<le> n \<and> n < 2 ^ bit_length n"
proof (induction n rule: bit_length.induct)
  case (1 n)
  show ?case
  proof (cases "n div 2 \<le> 0")
    case True
    with "1.prems" have "n = 1" by linarith
    then show ?thesis by (simp add: bit_length_pos bit_length_nonpos)
  next
    case False
    then have pos: "0 < n div 2" by simp
    from "1.prems" have "\<not> n \<le> 0" by simp
    from "1.IH" [OF this pos]
    have lo: "2 ^ (bit_length (n div 2) - 1) \<le> n div 2"
      and hi: "n div 2 < 2 ^ bit_length (n div 2)" by simp_all
    obtain k where k: "bit_length (n div 2) = Suc k"
      using pos by (auto simp: bit_length_pos)
    from lo k have "2 ^ k \<le> n div 2" by simp
    then have a: "2 ^ Suc k \<le> n" by simp
    from hi k have "n div 2 < 2 ^ Suc k" by simp
    then have b: "n < 2 ^ Suc (Suc k)" by simp
    from a b k "1.prems" show ?thesis by (simp add: bit_length_pos)
  qed
qed

lemma pow2_powi: "pow2 e = 2 powi e"
  by (simp add: pow2_def power_int_def power_one_over)

lemma pow2_pos: "0 < pow2 e"
  by (simp add: pow2_powi)

lemma pow2_add: "pow2 (a + b) = pow2 a * pow2 b"
  by (simp add: pow2_powi power_int_add)

lemma pow2_mono: "a \<le> b \<Longrightarrow> pow2 a \<le> pow2 b"
  by (simp add: pow2_powi power_int_increasing)

lemma pow2_less_cancel: "pow2 a < pow2 b \<Longrightarrow> a < b"
  using pow2_mono [of b a] by (cases "a < b") auto

lemma pow2_nat: "pow2 (int k) = 2 ^ k"
  by (simp add: pow2_def)

lemma pow2_neg_nat: "pow2 (- int k) = 1 / 2 ^ k"
  by (simp add: pow2_powi power_int_minus inverse_eq_divide)

lemma floor_log2_bounds:
  assumes "0 < x"
  shows "pow2 (floor_log2 x) \<le> x \<and> x < pow2 (floor_log2 x + 1)"
proof (cases "1 \<le> x")
  case True
  then have fpos: "0 < \<lfloor>x\<rfloor>" by linarith
  obtain k where k: "bit_length \<lfloor>x\<rfloor> = Suc k" using fpos by (auto simp: bit_length_pos)
  from bit_length_bounds [OF fpos] k have lo: "2 ^ k \<le> \<lfloor>x\<rfloor>" and hi: "\<lfloor>x\<rfloor> < 2 ^ Suc k"
    by simp_all
  have e: "floor_log2 x = int k" using True k by (simp add: floor_log2_def)
  have a: "(2 ^ k :: rat) \<le> x" using lo by (simp add: le_floor_iff)
  have b: "x < (2 ^ Suc k :: rat)" using hi by (simp add: floor_less_iff)
  have "pow2 (int k + 1) = 2 ^ Suc k" using pow2_nat [of "Suc k"] by (simp add: add.commute)
  with a b e show ?thesis by (simp add: pow2_nat)
next
  case False
  with assms have x1: "x < 1" by simp
  then have "1 < 1 / x" using assms by simp
  then have c2: "2 \<le> \<lceil>1 / x\<rceil>" by linarith
  define n where "n = \<lceil>1 / x\<rceil> - 1"
  have npos: "0 < n" using c2 by (simp add: n_def)
  obtain k where k: "bit_length n = Suc k" using npos by (auto simp: bit_length_pos)
  from bit_length_bounds [OF npos] k have lo: "2 ^ k \<le> n" and hi: "n < 2 ^ Suc k"
    by simp_all
  have e: "floor_log2 x = - int (Suc k)" using False k by (simp add: floor_log2_def n_def)
  have "\<lceil>1 / x\<rceil> \<le> 2 ^ Suc k" using hi by (simp add: n_def)
  then have "1 / x \<le> 2 ^ Suc k" by (simp add: ceiling_le_iff)
  then have "1 \<le> 2 ^ Suc k * x" using assms by (simp add: field_simps)
  then have a: "1 / 2 ^ Suc k \<le> x" by (simp add: field_simps)
  have "2 ^ k < \<lceil>1 / x\<rceil>" using lo by (simp add: n_def)
  then have "2 ^ k < 1 / x" by (simp add: less_ceiling_iff)
  then have "2 ^ k * x < 1" using assms by (simp add: field_simps)
  then have b: "x < 1 / 2 ^ k" by (simp add: field_simps)
  have e1: "floor_log2 x + 1 = - int k" using e by simp
  have "pow2 (floor_log2 x) \<le> x"
    using a pow2_neg_nat [of "Suc k"] by (simp only: e)
  moreover have "x < pow2 (floor_log2 x + 1)"
    using b pow2_neg_nat [of k] by (simp only: e1)
  ultimately show ?thesis ..
qed

lemma round_half_even_err: "\<bar>of_int (round_half_even y) - y\<bar> \<le> 1 / 2"
proof -
  have "of_int \<lfloor>y\<rfloor> \<le> y" "y < of_int \<lfloor>y\<rfloor> + 1" by linarith+
  then show ?thesis by (auto simp: round_half_even_def Let_def)
qed


lemma fl64_0: "fl64 0 = 0"
  by (simp add: fl64_def)

lemma fl64_minus: "fl64 (- x) = - fl64 x"
  by (simp add: fl64_def Let_def)

lemma fl64_error:
  assumes "pow2 (- 1022) \<le> x"
  shows "\<bar>fl64 x - x\<bar> \<le> x / 2 ^ 53"
proof -
  have xpos: "0 < x" using assms pow2_pos [of "- 1022"] by linarith
  define e0 where "e0 = floor_log2 x"
  from floor_log2_bounds [OF xpos] have lo: "pow2 e0 \<le> x" and hi: "x < pow2 (e0 + 1)"
    by (simp_all add: e0_def)
  from assms hi have "pow2 (- 1022) < pow2 (e0 + 1)" by linarith
  then have "- 1022 < e0 + 1" by (rule pow2_less_cancel)
  then have big: "- 1022 \<le> e0" by simp
  define e where "e = e0 - 52"
  define m where "m = round_half_even (x / pow2 e)"
  have fl: "fl64 x = of_int m * pow2 e"
    using xpos big by (simp add: fl64_def Let_def e0_def [symmetric] e_def m_def max_def)
  have pe: "0 < pow2 e" by (rule pow2_pos)
  have "fl64 x - x = (of_int m - x / pow2 e) * pow2 e"
    using pe by (simp add: fl field_simps)
  then have "\<bar>fl64 x - x\<bar> = \<bar>of_int m - x / pow2 e\<bar> * pow2 e"
    using pe by (simp add: abs_mult)
  also have "\<dots> \<le> 1 / 2 * pow2 e"
    using round_half_even_err [of "x / pow2 e"] pe
    by (intro mult_right_mono) (simp_all add: m_def)
  also have "\<dots> = pow2 e0 / 2 ^ 53"
  proof -
    have "pow2 e0 = pow2 (e + 52)" by (simp add: e_def)
    also have "\<dots> = pow2 e * pow2 52" by (rule pow2_add)
    also have "pow2 52 = 2 ^ 52" using pow2_nat [of 52] by simp
    finally show ?thesis by simp
  qed
  also have "\<dots> \<le> x / 2 ^ 53" using lo by (simp add: divide_right_mono)
  finally show ?thesis .
qed

lemma fl64_lower:
  assumes "pow2 (- 1022) \<le> x"
  shows "x * round_down \<le> fl64 x"
proof -
  have a: "x - x / 2 ^ 53 \<le> fl64 x" using fl64_error [OF assms] by linarith
  have b: "x * round_down = x - x / 2 ^ 53" by (simp add: round_down_def algebra_simps)
  show ?thesis unfolding b by (rule a)
qed

lemma fl64_upper:
  assumes "pow2 (- 1022) \<le> x"
  shows "fl64 x \<le> x * (1 + 1 / 2 ^ 53)"
proof -
  have "fl64 x \<le> x + x / 2 ^ 53" using fl64_error [OF assms] by linarith
  moreover have "x * (1 + 1 / 2 ^ 53) = x + x / 2 ^ 53" by (simp add: algebra_simps)
  ultimately show ?thesis by simp
qed

lemma small_normal: "pow2 (- 1022) \<le> 1 / 100"
  by (simp add: pow2_def)


lemma round_down_bounds: "0 \<le> round_down" "round_down \<le> 1"
  by (simp_all add: round_down_def)

lemma bernoulli_rat:
  fixes u :: rat
  assumes "0 \<le> u" "u \<le> 1"
  shows "1 - of_nat n * u \<le> (1 - u) ^ n"
proof (induction n)
  case 0
  show ?case by simp
next
  case (Suc n)
  have "(1 - of_nat n * u) * (1 - u) \<le> (1 - u) ^ n * (1 - u)"
    using Suc assms by (intro mult_right_mono) simp_all
  moreover have "1 - of_nat (Suc n) * u \<le> (1 - of_nat n * u) * (1 - u)"
    using assms by (simp add: algebra_simps)
  ultimately show ?case by (simp add: mult.commute)
qed

lemma round_down_52: "50 \<le> 51 * round_down ^ 52"
proof -
  have "1 - of_nat 52 * (1 / 2 ^ 53) \<le> (1 - 1 / 2 ^ 53 :: rat) ^ 52"
    by (rule bernoulli_rat) simp_all
  then have "51 * (1 - 52 * (1 / 2 ^ 53)) \<le> 51 * (1 - 1 / 2 ^ 53 :: rat) ^ 52"
    by simp
  moreover have "(50::rat) \<le> 51 * (1 - 52 * (1 / 2 ^ 53))" by simp
  ultimately show ?thesis unfolding round_down_def by linarith
qed

lemma round_down_small: "1 / 100 \<le> 1 / 50 * round_down"
  by (simp add: round_down_def)

text \<open>Evaluating \<open>fl64\<close> on numerals with the simplifier.\<close>

lemma floor_rat_numeral: "\<lfloor>numeral a / numeral b :: rat\<rfloor> = numeral a div numeral b"
  using floor_divide_of_int_eq [of "numeral a" "numeral b", where ?'a = rat] by simp

lemma ceiling_rat_numeral: "\<lceil>numeral a / numeral b :: rat\<rceil> = - (- numeral a div numeral b)"
proof -
  have "\<lceil>numeral a / numeral b :: rat\<rceil> = - \<lfloor>- numeral a / numeral b :: rat\<rfloor>"
    by (simp add: ceiling_def)
  also have "\<lfloor>- numeral a / numeral b :: rat\<rfloor> = - numeral a div numeral b"
    using floor_divide_of_int_eq [of "- numeral a" "numeral b", where ?'a = rat] by simp
  finally show ?thesis .
qed

lemmas fl64_eval = fl64_def floor_log2_def pow2_def round_half_even_def Let_def
  bit_length_pos bit_length_nonpos floor_rat_numeral ceiling_rat_numeral

lemmas ticks_eval = eval_nat_numeral interval_tick_def interval_step_def new_timer_def fl64_eval

subsection \<open>Each counter animates at most once\<close>

lemma animations_of_animateCounter:
  "animations_of e (animateCounter el tgt suf s) = animations_of e s + (if e = el then 1 else 0)"
  by (simp add: animations_of_def animateCounter_def new_timer_def Let_def add_class_simps)

lemma classList_animateCounter:
  "classList (elements (animateCounter el tgt suf s) e) =
     (if e = el then classList_add ''counting'' (classList (elements s el))
      else classList (elements s e))"
  by (simp add: animateCounter_def Let_def add_class_simps)

lemma counter_observed_animateCounter:
  "counter_observed (animateCounter el tgt suf s) = counter_observed s"
  by (simp add: animateCounter_def Let_def add_class_simps)

lemma interval_step_element: "timer_element (interval_step t) = timer_element t"
  by (simp add: interval_step_def Let_def)

lemma filter_list_update_same:
  "i < length xs \<Longrightarrow> f y = f (xs ! i)
     \<Longrightarrow> length (filter (\<lambda>x. f x = e) (xs[i := y])) = length (filter (\<lambda>x. f x = e) xs)"
proof (induction xs arbitrary: i)
  case Nil
  then show ?case by simp
next
  case (Cons x xs)
  then show ?case by (cases i) simp_all
qed

lemma animations_of_interval_fires:
  "animations_of e (interval_fires fmt i s) = animations_of e s"
  by (simp add: animations_of_def interval_fires_def Let_def filter_list_update_same
      interval_step_element)

lemma classList_interval_fires:
  "classList (elements (interval_fires fmt i s) e) = classList (elements s e)"
  by (simp add: interval_fires_def Let_def)

lemma counter_observed_interval_fires:
  "counter_observed (interval_fires fmt i s) = counter_observed s"
  by (simp add: interval_fires_def Let_def)

lemma counters_inv_interval_fires:
  "counters_inv s \<Longrightarrow> counters_inv (interval_fires fmt i s)"
  by (simp add: counters_inv_def animations_of_interval_fires classList_interval_fires
      counter_observed_interval_fires)

lemma counters_inv_start:
  assumes inv: "counters_inv s"
    and fresh: "''counting'' \<notin> set (classList (elements s el))"
  shows "counters_inv ((animateCounter el tgt suf s)
           \<lparr>counter_observed := counter_observed (animateCounter el tgt suf s) - {el}\<rparr>)"
proof -
  have zero: "animations_of el s = 0"
  proof (rule ccontr)
    assume "animations_of el s \<noteq> 0"
    with inv have "animations_of el s = 1"
      unfolding counters_inv_def by (metis le_neq_implies_less less_one)
    with inv fresh show False unfolding counters_inv_def by blast
  qed
  have count: "\<And>e. animations_of e ((animateCounter el tgt suf s)
           \<lparr>counter_observed := counter_observed (animateCounter el tgt suf s) - {el}\<rparr>)
        = animations_of e s + (if e = el then 1 else 0)"
    using animations_of_animateCounter [of _ el tgt suf s] by (simp add: animations_of_def)
  show ?thesis
    unfolding counters_inv_def
  proof (intro allI conjI impI)
    fix e
    show "animations_of e ((animateCounter el tgt suf s)
           \<lparr>counter_observed := counter_observed (animateCounter el tgt suf s) - {el}\<rparr>) \<le> 1"
      using inv zero by (simp add: count counters_inv_def)
  next
    fix e
    assume one: "animations_of e ((animateCounter el tgt suf s)
           \<lparr>counter_observed := counter_observed (animateCounter el tgt suf s) - {el}\<rparr>) = 1"
    show "''counting'' \<in> set (classList (elements ((animateCounter el tgt suf s)
           \<lparr>counter_observed := counter_observed (animateCounter el tgt suf s) - {el}\<rparr>) e))"
    proof (cases "e = el")
      case True
      then show ?thesis by (simp add: classList_animateCounter classList_add_set)
    next
      case False
      with one have "animations_of e s = 1" by (simp add: count)
      with inv False show ?thesis
        by (simp add: classList_animateCounter counters_inv_def)
    qed
  next
    fix e
    assume one: "animations_of e ((animateCounter el tgt suf s)
           \<lparr>counter_observed := counter_observed (animateCounter el tgt suf s) - {el}\<rparr>) = 1"
    show "e \<notin> counter_observed ((animateCounter el tgt suf s)
           \<lparr>counter_observed := counter_observed (animateCounter el tgt suf s) - {el}\<rparr>)"
    proof (cases "e = el")
      case True
      then show ?thesis by simp
    next
      case False
      with one have "animations_of e s = 1" by (simp add: count)
      with inv show ?thesis
        by (simp add: counter_observed_animateCounter counters_inv_def)
    qed
  qed
qed

lemma find_counter_element:
  "find (\<lambda>c. counter_element c = Some x) counters = Some c \<Longrightarrow> counter_element c = Some x"
  by (induction counters) (auto split: if_splits)

lemma counters_inv_counter_entry:
  assumes "counters_inv s"
  shows "counters_inv (counter_entry counters entry s)"
proof (cases "isIntersecting entry")
  case False
  with assms show ?thesis by (simp add: counter_entry_def)
next
  case True
  show ?thesis
  proof (cases "find (\<lambda>c. counter_element c = Some (entry_target entry)) counters")
    case None
    with assms True show ?thesis by (simp add: counter_entry_def)
  next
    case (Some c)
    then have el: "counter_element c = Some (entry_target entry)"
      by (rule find_counter_element)
    show ?thesis
    proof (cases "''counting'' \<in> set (classList (elements s (entry_target entry)))")
      case True
      with assms Some el \<open>isIntersecting entry\<close> show ?thesis
        by (simp add: counter_entry_def classList_contains_def)
    next
      case False
      from counters_inv_start [OF assms False, of "counter_target c" "counter_suffix c"]
      show ?thesis
        using Some el False \<open>isIntersecting entry\<close>
        by (simp add: counter_entry_def classList_contains_def Let_def)
    qed
  qed
qed

lemma counters_inv_counter_callback:
  "counters_inv s \<Longrightarrow> counters_inv (counter_callback counters entries s)"
  unfolding counter_callback_def
  by (induction entries arbitrary: s) (simp_all add: counters_inv_counter_entry)

lemma counters_inv_event:
  "counters_inv s \<Longrightarrow> counters_inv (counter_event_step fmt counters ev s)"
  by (cases ev) (simp_all add: counters_inv_counter_callback counters_inv_interval_fires)

lemma counters_inv_run:
  "counters_inv s \<Longrightarrow> counters_inv (run_counter_events fmt counters events s)"
  unfolding run_counter_events_def
  by (induction events arbitrary: s) (simp_all add: counters_inv_event)

lemma counters_inv_initial:
  "intervals doc = [] \<Longrightarrow> counters_inv (initializeCounters counters doc)"
  by (simp add: counters_inv_def initializeCounters_def animations_of_def)

text \<open>Once an element carries \<^verbatim>\<open>counting\<close>, no event starts an animation on it.\<close>

lemma counter_entry_guarded:
  assumes "''counting'' \<in> set (classList (elements s e))"
  shows "animations_of e (counter_entry counters entry s) = animations_of e s
       \<and> ''counting'' \<in> set (classList (elements (counter_entry counters entry s) e))"
proof (cases "isIntersecting entry")
  case False
  with assms show ?thesis by (simp add: counter_entry_def)
next
  case True
  show ?thesis
  proof (cases "find (\<lambda>c. counter_element c = Some (entry_target entry)) counters")
    case None
    with assms True show ?thesis by (simp add: counter_entry_def)
  next
    case (Some c)
    then have el: "counter_element c = Some (entry_target entry)"
      by (rule find_counter_element)
    show ?thesis
    proof (cases "entry_target entry = e")
      case True
      with assms Some el \<open>isIntersecting entry\<close> show ?thesis
        by (simp add: counter_entry_def classList_contains_def)
    next
      case False
      with assms Some el \<open>isIntersecting entry\<close> show ?thesis
        by (simp add: counter_entry_def classList_contains_def Let_def animations_of_def
            animateCounter_def new_timer_def add_class_simps)
    qed
  qed
qed

lemma counter_callback_guarded:
  "''counting'' \<in> set (classList (elements s e))
     \<Longrightarrow> animations_of e (counter_callback counters entries s) = animations_of e s
       \<and> ''counting'' \<in> set (classList (elements (counter_callback counters entries s) e))"
proof (induction entries arbitrary: s)
  case Nil
  then show ?case by (simp add: counter_callback_def)
next
  case (Cons x xs)
  from counter_entry_guarded [OF Cons.prems, of counters x]
  have 1: "animations_of e (counter_entry counters x s) = animations_of e s"
    and 2: "''counting'' \<in> set (classList (elements (counter_entry counters x s) e))"
    by simp_all
  from Cons.IH [OF 2] 1 show ?case by (simp add: counter_callback_def)
qed

lemma counter_event_guarded:
  assumes "''counting'' \<in> set (classList (elements s e))"
  shows "animations_of e (counter_event_step fmt counters ev s) = animations_of e s
       \<and> ''counting'' \<in> set (classList (elements (counter_event_step fmt counters ev s) e))"
proof (cases ev)
  case (Intersections entries)
  with counter_callback_guarded [OF assms, of counters entries] show ?thesis by simp
next
  case (Tick i)
  with assms show ?thesis
    by (simp add: animations_of_interval_fires classList_interval_fires)
qed

lemma run_counter_events_guarded:
  "''counting'' \<in> set (classList (elements s e))
     \<Longrightarrow> animations_of e (run_counter_events fmt counters events s) = animations_of e s"
proof (induction events arbitrary: s)
  case Nil
  then show ?case by (simp add: run_counter_events_def)
next
  case (Cons ev evs)
  from counter_event_guarded [OF Cons.prems, of fmt counters ev]
  have 1: "animations_of e (counter_event_step fmt counters ev s) = animations_of e s"
    and 2: "''counting'' \<in> set (classList (elements (counter_event_step fmt counters ev s) e))"
    by simp_all
  from Cons.IH [OF 2] 1 show ?case by (simp add: run_counter_events_def)
qed

text \<open>
  C8. From a page on which no counter animation has been started, whatever batches of
  intersection entries the observer's callback receives and however the interval timers
  tick in between, an element gets at most one animation. Once it has one, it carries
  the class \<^verbatim>\<open>counting\<close>, it is no longer an observation target of the counter
  observer, and no later sequence of events starts another animation on it.
\<close>

theorem counter_animates_at_most_once:
  assumes "intervals doc = []"
  shows "animations_of e (run_counter_events fmt counters events (initializeCounters counters doc)) \<le> 1
   \<and> (animations_of e (run_counter_events fmt counters events (initializeCounters counters doc)) = 1
      \<longrightarrow> ''counting'' \<in> set (classList (elements
              (run_counter_events fmt counters events (initializeCounters counters doc)) e))
        \<and> e \<notin> counter_observed (run_counter_events fmt counters events (initializeCounters counters doc))
        \<and> animations_of e (run_counter_events fmt counters later
              (run_counter_events fmt counters events (initializeCounters counters doc))) = 1)"
proof -
  let ?s = "run_counter_events fmt counters events (initializeCounters counters doc)"
  have inv: "counters_inv ?s"
    using assms by (intro counters_inv_run counters_inv_initial)
  then have le: "animations_of e ?s \<le> 1" by (simp add: counters_inv_def)
  have after: "animations_of e ?s = 1 \<Longrightarrow>
      ''counting'' \<in> set (classList (elements ?s e)) \<and> e \<notin> counter_observed ?s
      \<and> animations_of e (run_counter_events fmt counters later ?s) = 1"
  proof -
    assume one: "animations_of e ?s = 1"
    with inv have c: "''counting'' \<in> set (classList (elements ?s e))"
      and u: "e \<notin> counter_observed ?s"
      by (simp_all add: counters_inv_def)
    from run_counter_events_guarded [OF c, of fmt counters later] one c u
    show ?thesis by simp
  qed
  from le after show ?thesis by blast
qed

text \<open>
  The theorem on the university page: the program counter becomes visible, leaves the
  viewport and becomes visible again. One animation is started, by the first entry.
\<close>

theorem counter_animates_at_most_once_witness:
  "intervals hero_page = []
   \<and> animations_of ''program-count''
        (run_counter_events toLocaleString_enUS (university_counters (\<lambda>i. True))
          [Intersections [\<lparr>entry_target = ''program-count'', isIntersecting = True\<rparr>]]
          (initializeCounters (university_counters (\<lambda>i. True)) hero_page)) = 1
   \<and> animations_of ''program-count''
        (run_counter_events toLocaleString_enUS (university_counters (\<lambda>i. True))
          [Intersections [\<lparr>entry_target = ''program-count'', isIntersecting = False\<rparr>,
                          \<lparr>entry_target = ''program-count'', isIntersecting = True\<rparr>]]
          (run_counter_events toLocaleString_enUS (university_counters (\<lambda>i. True))
            [Intersections [\<lparr>entry_target = ''program-count'', isIntersecting = True\<rparr>]]
            (initializeCounters (university_counters (\<lambda>i. True)) hero_page))) = 1"
proof -
  let ?cs = "university_counters (\<lambda>i. True)"
  let ?first = "[Intersections [\<lparr>entry_target = ''program-count'', isIntersecting = True\<rparr>]]"
  have h: "intervals hero_page = []" by (simp add: hero_page_def)
  have started: "animations_of ''program-count''
      (run_counter_events toLocaleString_enUS ?cs ?first (initializeCounters ?cs hero_page)) = 1"
    by (simp add: run_counter_events_def counter_callback_def counter_entry_def
        university_counters_def getElementById_def initializeCounters_def hero_page_def
        plain_element_def classList_contains_def animateCounter_def new_timer_def add_class_def
        animations_of_def Let_def)
  from counter_animates_at_most_once [OF h, of "''program-count''" toLocaleString_enUS ?cs ?first]
    started h
  show ?thesis by blast
qed

subsection \<open>The counter animation\<close>

lemma interval_tick_fields:
  "target (interval_tick t) = target t"
  "increment (interval_tick t) = increment t"
  "suffix (interval_tick t) = suffix t"
  "timer_element (interval_tick t) = timer_element t"
  by (simp_all add: interval_tick_def interval_step_def Let_def)

lemma ticks_fields:
  "target ((interval_tick ^^ n) t) = target t"
  "increment ((interval_tick ^^ n) t) = increment t"
  "suffix ((interval_tick ^^ n) t) = suffix t"
  "timer_element ((interval_tick ^^ n) t) = timer_element t"
  by (induction n) (simp_all add: interval_tick_fields)

lemma interval_tick_cleared: "cleared t \<Longrightarrow> cleared (interval_tick t)"
  by (simp add: interval_tick_def)

lemma ticks_cleared_mono:
  "cleared ((interval_tick ^^ n) t) \<Longrightarrow> cleared ((interval_tick ^^ (n + k)) t)"
  by (induction k) (simp_all add: interval_tick_cleared)

lemma interval_tick_reached:
  "(cleared t \<longrightarrow> current t = target t)
     \<Longrightarrow> cleared (interval_tick t) \<longrightarrow> current (interval_tick t) = target (interval_tick t)"
  by (simp add: interval_tick_def interval_step_def Let_def)

lemma ticks_reached:
  "\<not> cleared t \<Longrightarrow> cleared ((interval_tick ^^ n) t)
     \<Longrightarrow> current ((interval_tick ^^ n) t) = target t"
proof -
  assume nc: "\<not> cleared t"
  have "cleared ((interval_tick ^^ n) t) \<longrightarrow> current ((interval_tick ^^ n) t) = target ((interval_tick ^^ n) t)"
  proof (induction n)
    case 0
    with nc show ?case by simp
  next
    case (Suc n)
    from interval_tick_reached [OF Suc] show ?case by simp
  qed
  then show "cleared ((interval_tick ^^ n) t) \<Longrightarrow> current ((interval_tick ^^ n) t) = target t"
    by (simp add: ticks_fields)
qed


lemma ticks_lower:
  assumes inc: "1 / 100 \<le> increment t" and start: "current t = 0"
  shows "\<not> cleared ((interval_tick ^^ n) t)
     \<Longrightarrow> of_nat n * increment t * round_down ^ n \<le> current ((interval_tick ^^ n) t)"
proof (induction n)
  case 0
  then show ?case by (simp add: start)
next
  case (Suc n)
  let ?q = "round_down"
  let ?tn = "(interval_tick ^^ n) t"
  let ?i = "increment t"
  have q: "0 \<le> ?q" "?q \<le> 1" by (rule round_down_bounds)+
  from Suc.prems have nc: "\<not> cleared ?tn"
    using interval_tick_cleared [of ?tn] by auto
  from Suc.IH [OF nc] have ih: "of_nat n * ?i * ?q ^ n \<le> current ?tn" .
  have ipos: "0 \<le> ?i" using inc by linarith
  have qn: "?q ^ n \<le> 1" using q by (intro power_le_one)
  have "0 \<le> of_nat n * ?i * ?q ^ n" using ipos q by simp
  with ih have cpos: "0 \<le> current ?tn" by linarith
  have "?i * ?q ^ n \<le> ?i * 1" using qn ipos by (intro mult_left_mono)
  with ih have sum: "of_nat (Suc n) * ?i * ?q ^ n \<le> current ?tn + ?i"
    by (simp add: algebra_simps)
  have normal: "pow2 (- 1022) \<le> current ?tn + ?i"
    using small_normal inc cpos by linarith
  have step: "(interval_tick ^^ Suc n) t = interval_step ?tn"
    using nc by (simp add: interval_tick_def)
  have cur: "current ((interval_tick ^^ Suc n) t) = fl64 (current ?tn + ?i)"
    using Suc.prems unfolding step
    by (auto simp: interval_step_def Let_def ticks_fields split: if_splits)
  have "of_nat (Suc n) * ?i * ?q ^ Suc n = (of_nat (Suc n) * ?i * ?q ^ n) * ?q"
    by simp
  also have "\<dots> \<le> (current ?tn + ?i) * ?q"
    using sum q by (intro mult_right_mono)
  also have "\<dots> \<le> fl64 (current ?tn + ?i)" by (rule fl64_lower [OF normal])
  finally show ?case by (simp only: cur)
qed

lemma ticks_below:
  assumes "\<not> cleared ((interval_tick ^^ Suc n) t)"
  shows "current ((interval_tick ^^ Suc n) t) < target t"
proof -
  let ?tn = "(interval_tick ^^ n) t"
  from assms have nc: "\<not> cleared ?tn"
    using interval_tick_cleared [of ?tn] by auto
  then have step: "(interval_tick ^^ Suc n) t = interval_step ?tn"
    by (simp add: interval_tick_def)
  from assms show ?thesis unfolding step
    by (auto simp: interval_step_def Let_def ticks_fields split: if_splits)
qed

lemma increment_positive_target:
  assumes "1 \<le> tgt"
  shows "tgt / 50 * round_down \<le> fl64 (tgt / 50)" and "1 / 100 \<le> fl64 (tgt / 50)"
proof -
  have "pow2 (- 1022) \<le> tgt / 50" using small_normal assms by linarith
  then show a: "tgt / 50 * round_down \<le> fl64 (tgt / 50)" by (rule fl64_lower)
  have "(1 / 100 :: rat) \<le> 1 / 50 * round_down" by (rule round_down_small)
  also have "\<dots> \<le> tgt / 50 * round_down"
    using assms round_down_bounds by (intro mult_right_mono) simp_all
  finally show "1 / 100 \<le> fl64 (tgt / 50)" using a by linarith
qed

lemma positive_target_cleared:
  assumes "1 \<le> tgt"
  shows "cleared ((interval_tick ^^ 51) (new_timer e tgt suf))"
proof (rule ccontr)
  let ?t = "new_timer e tgt suf"
  define n :: nat where "n = 50"
  define p where "p = round_down ^ Suc n"
  assume a: "\<not> cleared ((interval_tick ^^ 51) ?t)"
  have n51: "(51::nat) = Suc n" by (simp add: n_def)
  have nc: "\<not> cleared ((interval_tick ^^ Suc n) ?t)" using a unfolding n51 .
  have inc: "increment ?t = fl64 (tgt / 50)" and start: "current ?t = 0"
    and tg: "target ?t = tgt"
    by (simp_all add: new_timer_def)
  from increment_positive_target [OF assms]
  have i1: "tgt / 50 * round_down \<le> increment ?t" and i2: "1 / 100 \<le> increment ?t"
    by (simp_all add: inc)
  from ticks_lower [OF i2 start nc]
  have lo: "of_nat (Suc n) * increment ?t * p \<le> current ((interval_tick ^^ Suc n) ?t)"
    by (simp only: p_def)
  from ticks_below [OF nc] have hi: "current ((interval_tick ^^ Suc n) ?t) < tgt"
    by (simp only: tg)
  have ppos: "0 \<le> p" using round_down_bounds by (simp add: p_def)
  have "of_nat (Suc n) * (tgt / 50 * round_down) * p \<le> of_nat (Suc n) * increment ?t * p"
    using i1 ppos by (intro mult_right_mono mult_left_mono) simp_all
  with lo hi have lt: "of_nat (Suc n) * (tgt / 50 * round_down) * p < tgt" by linarith
  have "round_down * p = round_down ^ 52"
    unfolding p_def n_def by (simp only: power_Suc [symmetric]) simp
  then have "51 * (round_down * p) \<ge> 50" using round_down_52 by (simp only:)
  then have "tgt / 50 * 50 \<le> tgt / 50 * (51 * (round_down * p))"
    using assms by (intro mult_left_mono) simp_all
  moreover have "of_nat (Suc n) * (tgt / 50 * round_down) * p = tgt / 50 * (51 * (round_down * p))"
    by (simp add: n_def)
  ultimately show False using lt by simp
qed

lemma fl64_le_double:
  assumes "pow2 (- 1022) \<le> x"
  shows "fl64 x \<le> 2 * x"
proof -
  have xpos: "0 < x" using assms pow2_pos [of "- 1022"] by linarith
  have "x / 2 ^ 53 \<le> x" using xpos by (simp add: field_simps)
  with fl64_error [OF assms] show ?thesis by linarith
qed

lemma negative_target_cleared:
  assumes "tgt \<le> - 1"
  shows "cleared (interval_tick (new_timer e tgt suf))"
proof -
  define a where "a = - tgt / 50"
  define b where "b = fl64 a"
  have a50: "1 / 50 \<le> a" using assms by (simp add: a_def)
  then have an: "pow2 (- 1022) \<le> a" using small_normal by linarith
  have "1 / 50 * round_down \<le> a * round_down"
    using a50 round_down_bounds by (intro mult_right_mono) simp_all
  with fl64_lower [OF an] round_down_small have b100: "1 / 100 \<le> b"
    unfolding b_def by linarith
  then have bn: "pow2 (- 1022) \<le> b" using small_normal by linarith
  have bu: "b \<le> 2 * a" unfolding b_def by (rule fl64_le_double [OF an])
  have "fl64 b \<le> 2 * b" by (rule fl64_le_double [OF bn])
  with bu have "fl64 b \<le> 4 * a" by linarith
  also have "\<dots> \<le> - tgt" using assms by (simp add: a_def)
  finally have fb: "tgt \<le> - fl64 b" by linarith
  have "tgt / 50 = - a" by (simp add: a_def)
  then have inc: "fl64 (tgt / 50) = - b" by (simp add: b_def fl64_minus)
  have "fl64 (0 + fl64 (tgt / 50)) = - fl64 b" by (simp add: inc fl64_minus)
  with fb show ?thesis
    by (simp add: interval_tick_def interval_step_def new_timer_def Let_def)
qed

lemma zero_target_cleared: "cleared (interval_tick (new_timer e 0 suf))"
  by (simp add: interval_tick_def interval_step_def new_timer_def Let_def fl64_0)

lemma integer_target_cleared:
  "cleared ((interval_tick ^^ 51) (new_timer e (of_int T) suf))"
proof -
  consider "1 \<le> T" | "T = 0" | "T \<le> - 1" by linarith
  then show ?thesis
  proof cases
    case 1
    then have "1 \<le> (of_int T :: rat)" by simp
    then show ?thesis by (rule positive_target_cleared)
  next
    case 2
    have "cleared ((interval_tick ^^ 1) (new_timer e (of_int T) suf))"
      using zero_target_cleared [of e suf] 2 by simp
    from ticks_cleared_mono [OF this, of 50] show ?thesis by simp
  next
    case 3
    then have "(of_int T :: rat) \<le> - 1" by (metis of_int_le_iff of_int_minus of_int_1)
    then have "cleared ((interval_tick ^^ 1) (new_timer e (of_int T) suf))"
      using negative_target_cleared [of "of_int T" e suf] by simp
    from ticks_cleared_mono [OF this, of 50] show ?thesis by simp
  qed
qed

lemma interval_fires_cleared:
  "i < length (intervals s) \<Longrightarrow> cleared (intervals s ! i) \<Longrightarrow> interval_fires fmt i s = s"
  by (simp add: interval_fires_def)

lemma interval_fires_running:
  assumes "i < length (intervals s)" "\<not> cleared (intervals s ! i)"
  shows "intervals (interval_fires fmt i s) = (intervals s)[i := interval_tick (intervals s ! i)]"
    and "textContent (elements (interval_fires fmt i s) (timer_element (intervals s ! i)))
          = interval_text fmt (interval_tick (intervals s ! i))"
  using assms
  by (simp_all add: interval_fires_def interval_tick_def Let_def interval_step_element)

lemma interval_fires_run:
  assumes i: "i < length (intervals s)" and nc: "\<not> cleared (intervals s ! i)"
  shows "length (intervals ((interval_fires fmt i ^^ n) s)) = length (intervals s)
       \<and> intervals ((interval_fires fmt i ^^ n) s) ! i = (interval_tick ^^ n) (intervals s ! i)
       \<and> (0 < n \<longrightarrow> textContent (elements ((interval_fires fmt i ^^ n) s) (timer_element (intervals s ! i)))
              = interval_text fmt ((interval_tick ^^ n) (intervals s ! i)))"
proof (induction n)
  case 0
  show ?case by simp
next
  case (Suc n)
  let ?sn = "(interval_fires fmt i ^^ n) s"
  let ?t = "intervals s ! i"
  let ?tn = "(interval_tick ^^ n) ?t"
  from Suc have len: "length (intervals ?sn) = length (intervals s)"
    and tn: "intervals ?sn ! i = ?tn"
    and tx: "0 < n \<longrightarrow> textContent (elements ?sn (timer_element ?t)) = interval_text fmt ?tn"
    by simp_all
  from i len have i': "i < length (intervals ?sn)" by simp
  show ?case
  proof (cases "cleared ?tn")
    case True
    then have same: "interval_fires fmt i ?sn = ?sn"
      using interval_fires_cleared [OF i'] tn by simp
    from True nc have "0 < n" by (cases n) simp_all
    moreover have "interval_tick ?tn = ?tn" using True by (simp add: interval_tick_def)
    ultimately show ?thesis using tx len tn same by simp
  next
    case False
    then have nc': "\<not> cleared (intervals ?sn ! i)" by (simp add: tn)
    from interval_fires_running [OF i' nc', where fmt = fmt] tn len i'
    show ?thesis by (simp add: ticks_fields)
  qed
qed

lemma animateCounter_timer:
  "intervals (animateCounter e tgt suf s) ! length (intervals s) = new_timer e tgt suf"
  "length (intervals s) < length (intervals (animateCounter e tgt suf s))"
  by (simp_all add: animateCounter_def Let_def add_class_simps)

text \<open>
  C1. For a counter whose target is an integer \<open>T\<close> (a safe integer, so that it is a
  binary64 value), the animation started by animateCounter completes: after 51 ticks
  at the latest, and at every later moment, the timer has been cleared and the text of
  the element is the locale's rendering of \<open>T\<close> followed by the suffix. At whatever
  tick the timer is found cleared, the text is that.
\<close>

theorem counter_final_text:
  assumes "\<bar>T\<bar> \<le> 2 ^ 53"
  shows
   "(51 \<le> n \<longrightarrow>
       cleared (intervals ((interval_fires fmt (length (intervals s)) ^^ n)
                  (animateCounter e (of_int T) S s)) ! length (intervals s))
       \<and> textContent (elements ((interval_fires fmt (length (intervals s)) ^^ n)
                  (animateCounter e (of_int T) S s)) e) = fmt T @ S)
    \<and> (cleared (intervals ((interval_fires fmt (length (intervals s)) ^^ k)
                  (animateCounter e (of_int T) S s)) ! length (intervals s))
       \<longrightarrow> textContent (elements ((interval_fires fmt (length (intervals s)) ^^ k)
                  (animateCounter e (of_int T) S s)) e) = fmt T @ S)"
proof -
  let ?i = "length (intervals s)"
  let ?s0 = "animateCounter e (of_int T) S s"
  let ?t = "new_timer e (of_int T) S"
  have t: "intervals ?s0 ! ?i = ?t" and i: "?i < length (intervals ?s0)"
    by (rule animateCounter_timer)+
  have nc: "\<not> cleared (intervals ?s0 ! ?i)" by (simp add: t new_timer_def)
  have el: "timer_element ?t = e" and tg: "target ?t = of_int T" and su: "suffix ?t = S"
    by (simp_all add: new_timer_def)
  have run: "\<And>m. intervals ((interval_fires fmt ?i ^^ m) ?s0) ! ?i = (interval_tick ^^ m) ?t"
    "\<And>m. 0 < m \<Longrightarrow> textContent (elements ((interval_fires fmt ?i ^^ m) ?s0) e)
            = interval_text fmt ((interval_tick ^^ m) ?t)"
    using interval_fires_run [OF i nc, where fmt = fmt] by (simp_all add: t el)
  have done_text: "\<And>m. cleared ((interval_tick ^^ m) ?t)
      \<Longrightarrow> textContent (elements ((interval_fires fmt ?i ^^ m) ?s0) e) = fmt T @ S"
  proof -
    fix m
    assume c: "cleared ((interval_tick ^^ m) ?t)"
    have "\<not> cleared ?t" by (simp add: new_timer_def)
    with c have m: "0 < m" by (cases m) simp_all
    from ticks_reached [OF \<open>\<not> cleared ?t\<close> c] have "current ((interval_tick ^^ m) ?t) = of_int T"
      by (simp add: tg)
    then have "interval_text fmt ((interval_tick ^^ m) ?t) = fmt T @ S"
      by (simp add: interval_text_def ticks_fields su)
    with run(2) [OF m] show "textContent (elements ((interval_fires fmt ?i ^^ m) ?s0) e) = fmt T @ S"
      by simp
  qed
  have late: "51 \<le> n \<Longrightarrow> cleared ((interval_tick ^^ n) ?t)"
  proof -
    assume "51 \<le> n"
    then obtain d where "n = 51 + d" using le_Suc_ex by blast
    with ticks_cleared_mono [OF integer_target_cleared [of e T S], of d] show ?thesis by simp
  qed
  show ?thesis using late done_text run(1) by simp
qed

text \<open>
  The examples of the specification, in the en-US locale: target 150 with suffix
  \<^verbatim>\<open>+\<close> ends at \<^verbatim>\<open>150+\<close>, target 500000 at \<^verbatim>\<open>500,000\<close> without a
  suffix and at \<^verbatim>\<open>500,000+\<close> with the suffix \<^verbatim>\<open>+\<close>.
\<close>

theorem counter_final_text_witness:
  "\<bar>150 :: int\<bar> \<le> 2 ^ 53 \<and> \<bar>500000 :: int\<bar> \<le> 2 ^ 53 \<and> (51 :: nat) \<le> 51
   \<and> cleared (intervals ((interval_fires toLocaleString_enUS 0 ^^ 51)
          (animateCounter ''program-count'' 150 ''+'' hero_page)) ! 0)
   \<and> textContent (elements ((interval_fires toLocaleString_enUS 0 ^^ 51)
          (animateCounter ''program-count'' 150 ''+'' hero_page)) ''program-count'') = ''150+''
   \<and> textContent (elements ((interval_fires toLocaleString_enUS 0 ^^ 51)
          (animateCounter ''alumni-count'' 500000 [] hero_page)) ''alumni-count'') = ''500,000''
   \<and> textContent (elements ((interval_fires toLocaleString_enUS 0 ^^ 51)
          (animateCounter ''alumni-count'' 500000 ''+'' hero_page)) ''alumni-count'') = ''500,000+''"
proof -
  have len: "length (intervals hero_page) = 0" by (simp add: hero_page_def)
  have b1: "\<bar>150 :: int\<bar> \<le> 2 ^ 53" and b2: "\<bar>500000 :: int\<bar> \<le> 2 ^ 53" by simp_all
  have f1: "toLocaleString_enUS 150 @ ''+'' = ''150+''" by code_simp
  have f2: "toLocaleString_enUS 500000 @ [] = ''500,000''" by code_simp
  have f3: "toLocaleString_enUS 500000 @ ''+'' = ''500,000+''" by code_simp
  note t1 = counter_final_text [OF b1, where n = 51 and fmt = toLocaleString_enUS and s = hero_page
    and e = "''program-count''" and S = "''+''"]
  note t2 = counter_final_text [OF b2, where n = 51 and fmt = toLocaleString_enUS and s = hero_page
    and e = "''alumni-count''" and S = "[]"]
  note t3 = counter_final_text [OF b2, where n = 51 and fmt = toLocaleString_enUS and s = hero_page
    and e = "''alumni-count''" and S = "''+''"]
  have a1: "cleared (intervals ((interval_fires toLocaleString_enUS 0 ^^ 51)
          (animateCounter ''program-count'' 150 ''+'' hero_page)) ! 0)"
    and a2: "textContent (elements ((interval_fires toLocaleString_enUS 0 ^^ 51)
          (animateCounter ''program-count'' 150 ''+'' hero_page)) ''program-count'') = ''150+''"
    using t1 f1 by (simp_all only: len of_int_numeral le_refl simp_thms)
  have a3: "textContent (elements ((interval_fires toLocaleString_enUS 0 ^^ 51)
          (animateCounter ''alumni-count'' 500000 [] hero_page)) ''alumni-count'') = ''500,000''"
    using t2 f2 by (simp only: len of_int_numeral le_refl simp_thms)
  have a4: "textContent (elements ((interval_fires toLocaleString_enUS 0 ^^ 51)
          (animateCounter ''alumni-count'' 500000 ''+'' hero_page)) ''alumni-count'') = ''500,000+''"
    using t3 f3 by (simp only: len of_int_numeral le_refl simp_thms)
  from b1 b2 a1 a2 a3 a4 show ?thesis by (simp only: le_refl simp_thms)
qed

subsection \<open>The number of ticks\<close>

text \<open>
  For every target of at least 1 the timer is still running after 49 ticks and has been
  cleared after 51: the animation takes 50 or 51 ticks, depending on how the 50 rounded
  additions of the rounded increment fall.
\<close>

lemma fl64_upper_factor:
  assumes "pow2 (- 1022) \<le> x"
  shows "fl64 x \<le> x * round_up"
  using fl64_upper [OF assms] by (simp add: round_up_def)

lemma round_up_bounds: "1 \<le> round_up" "0 \<le> round_up"
  by (simp_all add: round_up_def)

lemma power_upper_rat:
  fixes u :: rat
  assumes "0 \<le> u"
  shows "2 * of_nat n * u \<le> 1 \<Longrightarrow> (1 + u) ^ n \<le> 1 + 2 * of_nat n * u"
proof (induction n)
  case 0
  show ?case by simp
next
  case (Suc n)
  from Suc.prems assms have small: "2 * of_nat n * u \<le> 1" by (simp add: algebra_simps)
  from Suc.IH [OF small] have ih: "(1 + u) ^ n \<le> 1 + 2 * of_nat n * u" .
  have "(1 + u) ^ Suc n = (1 + u) ^ n * (1 + u)" by simp
  also have "\<dots> \<le> (1 + 2 * of_nat n * u) * (1 + u)"
    using ih assms by (intro mult_right_mono) simp_all
  also have "\<dots> = 1 + 2 * of_nat n * u + u + (2 * of_nat n * u) * u"
    by (simp add: algebra_simps)
  also have "\<dots> \<le> 1 + 2 * of_nat n * u + u + 1 * u"
    using small assms by (intro add_left_mono mult_right_mono)
  also have "\<dots> = 1 + 2 * of_nat (Suc n) * u" by (simp add: algebra_simps)
  finally show ?case .
qed

lemma round_up_50: "49 * round_up ^ 50 < 50"
proof -
  have "(1 + 1 / 2 ^ 53 :: rat) ^ 50 \<le> 1 + 2 * of_nat 50 * (1 / 2 ^ 53)"
    by (rule power_upper_rat) simp_all
  then have "49 * (1 + 1 / 2 ^ 53 :: rat) ^ 50 \<le> 49 * (1 + 2 * of_nat 50 * (1 / 2 ^ 53))"
    by simp
  moreover have "49 * (1 + 2 * of_nat 50 * (1 / 2 ^ 53)) < (50 :: rat)" by simp
  ultimately show ?thesis unfolding round_up_def by linarith
qed

lemma ticks_upper:
  assumes inc: "1 / 100 \<le> increment t" and start: "current t = 0"
  shows "\<not> cleared ((interval_tick ^^ n) t)
     \<Longrightarrow> current ((interval_tick ^^ n) t) \<le> of_nat n * increment t * round_up ^ n"
proof (induction n)
  case 0
  then show ?case by (simp add: start)
next
  case (Suc n)
  let ?r = round_up
  let ?tn = "(interval_tick ^^ n) t"
  let ?i = "increment t"
  from Suc.prems have nc: "\<not> cleared ?tn"
    using interval_tick_cleared [of ?tn] by auto
  from Suc.IH [OF nc] have ih: "current ?tn \<le> of_nat n * ?i * ?r ^ n" .
  have ipos: "0 \<le> ?i" using inc by linarith
  have rn: "1 \<le> ?r ^ n" using round_up_bounds by (intro one_le_power)
  have "0 \<le> of_nat n * ?i * round_down ^ n" using ipos round_down_bounds by simp
  with ticks_lower [OF inc start nc] have cpos: "0 \<le> current ?tn" by linarith
  have "?i * 1 \<le> ?i * ?r ^ n" using rn ipos by (intro mult_left_mono)
  with ih have sum: "current ?tn + ?i \<le> of_nat (Suc n) * ?i * ?r ^ n"
    by (simp add: algebra_simps)
  have normal: "pow2 (- 1022) \<le> current ?tn + ?i"
    using small_normal inc cpos by linarith
  have step: "(interval_tick ^^ Suc n) t = interval_step ?tn"
    using nc by (simp add: interval_tick_def)
  have cur: "current ((interval_tick ^^ Suc n) t) = fl64 (current ?tn + ?i)"
    using Suc.prems unfolding step
    by (auto simp: interval_step_def Let_def ticks_fields split: if_splits)
  have "fl64 (current ?tn + ?i) \<le> (current ?tn + ?i) * ?r"
    by (rule fl64_upper_factor [OF normal])
  also have "\<dots> \<le> (of_nat (Suc n) * ?i * ?r ^ n) * ?r"
    using sum round_up_bounds by (intro mult_right_mono)
  also have "\<dots> = of_nat (Suc n) * ?i * ?r ^ Suc n" by simp
  finally show ?case by (simp only: cur)
qed

lemma increment_upper:
  assumes "1 \<le> tgt"
  shows "fl64 (tgt / 50) \<le> tgt / 50 * round_up"
proof -
  have "pow2 (- 1022) \<le> tgt / 50" using small_normal assms by linarith
  then show ?thesis by (rule fl64_upper_factor)
qed

lemma positive_target_running:
  assumes tgt: "1 \<le> tgt"
  shows "n \<le> 49 \<Longrightarrow> \<not> cleared ((interval_tick ^^ n) (new_timer e tgt suf))"
proof (induction n)
  case 0
  show ?case by (simp add: new_timer_def)
next
  case (Suc n)
  let ?t = "new_timer e tgt suf"
  let ?tn = "(interval_tick ^^ n) ?t"
  let ?r = round_up
  define p where "p = ?r ^ 49"
  have inc: "increment ?t = fl64 (tgt / 50)" and start: "current ?t = 0"
    and tg: "target ?t = tgt"
    by (simp_all add: new_timer_def)
  from Suc.prems have n: "n \<le> 49" and n1: "Suc n \<le> 49" by simp_all
  from Suc.IH [OF n] have nc: "\<not> cleared ?tn" .
  from increment_positive_target [OF tgt] have i2: "1 / 100 \<le> increment ?t"
    by (simp add: inc)
  have ipos: "0 \<le> increment ?t" using i2 by linarith
  from increment_upper [OF tgt] have i3: "increment ?t \<le> tgt / 50 * ?r" by (simp add: inc)
  have ppos: "0 \<le> p" using round_up_bounds by (simp add: p_def)
  have "0 \<le> of_nat n * increment ?t * round_down ^ n" using ipos round_down_bounds by simp
  with ticks_lower [OF i2 start nc] have cpos: "0 \<le> current ?tn" by linarith
  have normal: "pow2 (- 1022) \<le> current ?tn + increment ?t"
    using small_normal i2 cpos by linarith
  have rn: "1 \<le> ?r ^ n" using round_up_bounds by (intro one_le_power)
  have "increment ?t * 1 \<le> increment ?t * ?r ^ n" using rn ipos by (intro mult_left_mono)
  with ticks_upper [OF i2 start nc]
  have sum: "current ?tn + increment ?t \<le> of_nat (Suc n) * increment ?t * ?r ^ n"
    by (simp add: algebra_simps)
  have "fl64 (current ?tn + increment ?t) \<le> (current ?tn + increment ?t) * ?r"
    by (rule fl64_upper_factor [OF normal])
  also have "\<dots> \<le> (of_nat (Suc n) * increment ?t * ?r ^ n) * ?r"
    using sum round_up_bounds by (intro mult_right_mono)
  also have "\<dots> = of_nat (Suc n) * increment ?t * ?r ^ Suc n" by simp
  also have "\<dots> \<le> of_nat (Suc n) * increment ?t * p"
  proof -
    have "?r ^ Suc n \<le> ?r ^ 49" using n1 round_up_bounds by (intro power_increasing)
    then show ?thesis unfolding p_def using ipos by (intro mult_left_mono) simp_all
  qed
  also have "\<dots> \<le> 49 * increment ?t * p"
  proof -
    have "(of_nat (Suc n) :: rat) \<le> of_nat 49" using n1 by (simp only: of_nat_le_iff)
    then have "(of_nat (Suc n) :: rat) \<le> 49" by simp
    then show ?thesis using ipos ppos by (intro mult_right_mono) simp_all
  qed
  also have "\<dots> \<le> 49 * (tgt / 50 * ?r) * p"
    using i3 ppos by (intro mult_right_mono mult_left_mono) simp_all
  also have "\<dots> = tgt / 50 * (49 * (?r * p))" by simp
  also have "\<dots> < tgt / 50 * 50"
  proof -
    have "?r * p = ?r ^ 50" unfolding p_def by (simp only: power_Suc [symmetric]) simp
    then have "49 * (?r * p) < 50" using round_up_50 by (simp only:)
    then show ?thesis using tgt by (intro mult_strict_left_mono) simp_all
  qed
  finally have below: "fl64 (current ?tn + increment ?t) < tgt" by simp
  have step: "(interval_tick ^^ Suc n) ?t = interval_step ?tn"
    using nc by (simp add: interval_tick_def)
  show ?case unfolding step using below nc
    by (simp add: interval_step_def Let_def ticks_fields tg)
qed

lemma positive_target_50_or_51:
  assumes "1 \<le> tgt"
  shows "\<not> cleared ((interval_tick ^^ 49) (new_timer e tgt suf))"
    and "cleared ((interval_tick ^^ 51) (new_timer e tgt suf))"
  using positive_target_running [OF assms, of 49] positive_target_cleared [OF assms]
  by simp_all

text \<open>
  The counters of js/script.js (71000, 150, 9000, 500000) reach their target at the
  50th tick and not before: their increments (1420, 3, 180, 10000) and all partial sums
  are integers, which binary64 holds exactly.
\<close>

lemma university_counters_take_50_ticks:
  "cleared ((interval_tick ^^ 50) (new_timer e 71000 suf))
   \<and> \<not> cleared ((interval_tick ^^ 49) (new_timer e 71000 suf))
   \<and> cleared ((interval_tick ^^ 50) (new_timer e 150 suf))
   \<and> \<not> cleared ((interval_tick ^^ 49) (new_timer e 150 suf))
   \<and> cleared ((interval_tick ^^ 50) (new_timer e 9000 suf))
   \<and> \<not> cleared ((interval_tick ^^ 49) (new_timer e 9000 suf))
   \<and> cleared ((interval_tick ^^ 50) (new_timer e 500000 suf))
   \<and> \<not> cleared ((interval_tick ^^ 49) (new_timer e 500000 suf))"
  by (simp add: ticks_eval)

text \<open>
  The placement-rate counter of the college variant of the script has the target 94.
  Its increment is the binary64 value nearest to 1.88, and the 50 rounded additions
  end just below 94.
\<close>

lemma placement_rate_tick_50:
  "\<not> cleared ((interval_tick ^^ 50) (new_timer e 94 suf))
   \<and> current ((interval_tick ^^ 50) (new_timer e 94 suf)) = 6614661952700413 / 70368744177664"
  by (simp add: ticks_eval)

lemma placement_rate_tick_51:
  "cleared ((interval_tick ^^ 51) (new_timer e 94 suf))
   \<and> current ((interval_tick ^^ 51) (new_timer e 94 suf)) = 94"
  by (simp add: ticks_eval)

text \<open>
  C9 at the target 94. The claim is that the accumulator reaches the target, and the
  timer is cleared, at the 50th tick. After the 50th tick the timer of the
  placement-rate counter is still running, the accumulator is
  6614661952700413 / 70368744177664 (93.99999999999996...) and the element shows
  \<^verbatim>\<open>93%\<close>; the 51st tick, 2040 milliseconds after the start, clears the timer and
  shows \<^verbatim>\<open>94%\<close>.
\<close>

theorem placement_rate_counter_needs_51_ticks:
  "find (\<lambda>c. counter_element c = Some ''placement-rate'') (college_counters (\<lambda>i. True))
     = Some \<lparr>counter_element = Some ''placement-rate'', counter_target = 94, counter_suffix = ''%''\<rparr>
   \<and> \<not> cleared (intervals ((interval_fires toLocaleString_enUS 0 ^^ 50)
          (animateCounter ''placement-rate'' 94 ''%'' hero_page)) ! 0)
   \<and> current (intervals ((interval_fires toLocaleString_enUS 0 ^^ 50)
          (animateCounter ''placement-rate'' 94 ''%'' hero_page)) ! 0) < 94
   \<and> textContent (elements ((interval_fires toLocaleString_enUS 0 ^^ 50)
          (animateCounter ''placement-rate'' 94 ''%'' hero_page)) ''placement-rate'') = ''93%''
   \<and> cleared (intervals ((interval_fires toLocaleString_enUS 0 ^^ 51)
          (animateCounter ''placement-rate'' 94 ''%'' hero_page)) ! 0)
   \<and> textContent (elements ((interval_fires toLocaleString_enUS 0 ^^ 51)
          (animateCounter ''placement-rate'' 94 ''%'' hero_page)) ''placement-rate'') = ''94%''
   \<and> 51 * stepTime = 2040"
proof -
  let ?s0 = "animateCounter ''placement-rate'' 94 ''%'' hero_page"
  let ?t = "new_timer ''placement-rate'' 94 ''%''"
  have cfg: "find (\<lambda>c. counter_element c = Some ''placement-rate'') (college_counters (\<lambda>i. True))
     = Some \<lparr>counter_element = Some ''placement-rate'', counter_target = 94, counter_suffix = ''%''\<rparr>"
    by (simp add: college_counters_def getElementById_def)
  have len: "length (intervals hero_page) = 0" by (simp add: hero_page_def)
  have t: "intervals ?s0 ! 0 = ?t" and i: "0 < length (intervals ?s0)"
    using animateCounter_timer [where e = "''placement-rate''" and tgt = 94 and suf = "''%''" and s = hero_page]
    by (simp_all add: len)
  have nc: "\<not> cleared (intervals ?s0 ! 0)" by (simp add: t new_timer_def)
  have el: "timer_element ?t = ''placement-rate''" and su: "suffix ?t = ''%''"
    by (simp_all add: new_timer_def)
  note run50 = interval_fires_run [OF i nc, where fmt = toLocaleString_enUS and n = 50]
  note run51 = interval_fires_run [OF i nc, where fmt = toLocaleString_enUS and n = 51]
  note v50 = placement_rate_tick_50 [where e = "''placement-rate''" and suf = "''%''"]
  note v51 = placement_rate_tick_51 [where e = "''placement-rate''" and suf = "''%''"]
  have f93: "toLocaleString_enUS 93 @ ''%'' = ''93%''" by code_simp
  have f94: "toLocaleString_enUS 94 @ ''%'' = ''94%''" by code_simp
  have fl93: "\<lfloor>6614661952700413 / 70368744177664 :: rat\<rfloor> = 93" by (simp add: floor_rat_numeral)
  have cur50: "current ((interval_tick ^^ 50) ?t) = 6614661952700413 / 70368744177664"
    using v50 by (rule conjunct2)
  have cur51: "current ((interval_tick ^^ 51) ?t) = 94"
    using v51 by (rule conjunct2)
  have fl94: "\<lfloor>94 :: rat\<rfloor> = 94" by simp
  have x50: "interval_text toLocaleString_enUS ((interval_tick ^^ 50) ?t) = ''93%''"
    unfolding interval_text_def cur50 fl93 ticks_fields su by (rule f93)
  have x51: "interval_text toLocaleString_enUS ((interval_tick ^^ 51) ?t) = ''94%''"
    unfolding interval_text_def cur51 fl94 ticks_fields su by (rule f94)
  have a: "\<not> cleared (intervals ((interval_fires toLocaleString_enUS 0 ^^ 50) ?s0) ! 0)"
    using run50 v50 by (simp add: t)
  have b: "current (intervals ((interval_fires toLocaleString_enUS 0 ^^ 50) ?s0) ! 0) < 94"
    using run50 by (simp add: t cur50)
  have c: "textContent (elements ((interval_fires toLocaleString_enUS 0 ^^ 50) ?s0) ''placement-rate'') = ''93%''"
    using run50 x50 by (simp add: t el)
  have d: "cleared (intervals ((interval_fires toLocaleString_enUS 0 ^^ 51) ?s0) ! 0)"
    using run51 v51 by (simp add: t)
  have e: "textContent (elements ((interval_fires toLocaleString_enUS 0 ^^ 51) ?s0) ''placement-rate'') = ''94%''"
    using run51 x51 by (simp add: t el)
  have st: "51 * stepTime = 2040" by (simp add: stepTime_def duration_def fl64_eval)
  from cfg a b c d e st show ?thesis by (simp only: simp_thms)
qed

subsection \<open>The form handlers\<close>

lemma advance_to_idle: "timeouts s = [] \<Longrightarrow> advance_to t s = s\<lparr>now := max (now s) t\<rparr>"
  by (simp add: advance_to.simps)

lemma advance_to_due:
  "timeouts s = (due, callback) # rest \<Longrightarrow> due \<le> t
     \<Longrightarrow> advance_to t s = advance_to t (run_task callback (s\<lparr>now := max (now s) due, timeouts := rest\<rparr>))"
  by (subst advance_to.simps) simp

lemma advance_to_later:
  "timeouts s = (due, callback) # rest \<Longrightarrow> t < due
     \<Longrightarrow> advance_to t s = s\<lparr>now := max (now s) t\<rparr>"
  by (subst advance_to.simps) simp

lemma submitApplication_valid_state:
  assumes "application_checkValidity s"
  shows "submitApplication s =
     s\<lparr>event_target := (event_target s)\<lparr>el_markup := submitting_markup, el_disabled := True\<rparr>,
       timeouts := enqueue (now s + 2000,
          ApplicationDone \<lparr>fd_firstName = field_value (firstName s),
                           fd_lastName = field_value (lastName s),
                           fd_email = field_value (email s),
                           fd_program = field_value (program s),
                           fd_startDate = field_value (startDate s),
                           fd_submittedAt = now s\<rparr>
                          (element_textContent s (event_target s))) (timeouts s)\<rparr>"
  using assms by (simp add: submitApplication_def Let_def setTimeout_def)

lemma application_pending_state:
  assumes valid: "application_checkValidity s" and idle: "timeouts s = []" and t: "t < 2000"
  shows "advance_to (now s + t) (submitApplication s) = (submitApplication s)\<lparr>now := now s + t\<rparr>"
proof -
  have q: "timeouts (submitApplication s) =
      (now s + 2000, ApplicationDone \<lparr>fd_firstName = field_value (firstName s),
                           fd_lastName = field_value (lastName s),
                           fd_email = field_value (email s),
                           fd_program = field_value (program s),
                           fd_startDate = field_value (startDate s),
                           fd_submittedAt = now s\<rparr>
                          (element_textContent s (event_target s))) # []"
    by (simp add: submitApplication_valid_state [OF valid] idle)
  have n: "now (submitApplication s) = now s"
    by (simp add: submitApplication_valid_state [OF valid])
  from advance_to_later [OF q, of "now s + t"] t n show ?thesis by (simp add: max_def)
qed

lemma application_done_state:
  assumes valid: "application_checkValidity s" and inst: "modal_instance s"
    and idle: "timeouts s = []" and t: "2000 \<le> t" "t < 7000"
  shows "advance_to (now s + t) (submitApplication s) =
     s\<lparr>now := now s + t,
       timeouts := [(now s + 7000, HideSuccessMessage)],
       console := console s @
         [ApplicationSubmitted \<lparr>fd_firstName = field_value (firstName s),
                           fd_lastName = field_value (lastName s),
                           fd_email = field_value (email s),
                           fd_program = field_value (program s),
                           fd_startDate = field_value (startDate s),
                           fd_submittedAt = now s\<rparr>,
          EventTracked ''application_submitted'' (field_value (program s))],
       firstName := reset_field (firstName s), lastName := reset_field (lastName s),
       email := reset_field (email s), program := reset_field (program s),
       startDate := reset_field (startDate s),
       event_target := (event_target s)\<lparr>el_markup := element_textContent s (event_target s),
                                        el_disabled := False\<rparr>,
       modal_shown := False,
       successDiv := Some (success_toast application_success_text s)\<rparr>"
proof -
  let ?fd = "\<lparr>fd_firstName = field_value (firstName s),
                           fd_lastName = field_value (lastName s),
                           fd_email = field_value (email s),
                           fd_program = field_value (program s),
                           fd_startDate = field_value (startDate s),
                           fd_submittedAt = now s\<rparr>"
  let ?cb = "ApplicationDone ?fd (element_textContent s (event_target s))"
  let ?s1 = "submitApplication s"
  have q: "timeouts ?s1 = (now s + 2000, ?cb) # []"
    by (simp add: submitApplication_valid_state [OF valid] idle)
  let ?s2 = "run_task ?cb (?s1\<lparr>now := max (now ?s1) (now s + 2000), timeouts := []\<rparr>)"
  have step: "advance_to (now s + t) ?s1 = advance_to (now s + t) ?s2"
    using t by (intro advance_to_due [OF q]) simp
  have q2: "timeouts ?s2 = (now s + 7000, HideSuccessMessage) # []"
    using inst
    by (simp add: submitApplication_valid_state [OF valid] Let_def showSuccessMessage_def
        setTimeout_def application_reset_def trackEvent_def)
  have "advance_to (now s + t) ?s2 = ?s2\<lparr>now := max (now ?s2) (now s + t)\<rparr>"
    using t by (intro advance_to_later [OF q2]) simp
  with step show ?thesis
    using inst t
    by (simp add: submitApplication_valid_state [OF valid] idle Let_def showSuccessMessage_def
        setTimeout_def application_reset_def trackEvent_def success_toast_def max_def)
qed

lemma application_hidden_state:
  assumes valid: "application_checkValidity s" and inst: "modal_instance s"
    and idle: "timeouts s = []" and t: "7000 \<le> t"
  shows "advance_to (now s + t) (submitApplication s) =
     s\<lparr>now := now s + t,
       timeouts := [],
       console := console s @
         [ApplicationSubmitted \<lparr>fd_firstName = field_value (firstName s),
                           fd_lastName = field_value (lastName s),
                           fd_email = field_value (email s),
                           fd_program = field_value (program s),
                           fd_startDate = field_value (startDate s),
                           fd_submittedAt = now s\<rparr>,
          EventTracked ''application_submitted'' (field_value (program s))],
       firstName := reset_field (firstName s), lastName := reset_field (lastName s),
       email := reset_field (email s), program := reset_field (program s),
       startDate := reset_field (startDate s),
       event_target := (event_target s)\<lparr>el_markup := element_textContent s (event_target s),
                                        el_disabled := False\<rparr>,
       modal_shown := False,
       successDiv := Some ((success_toast application_success_text s)\<lparr>sd_display := ''none''\<rparr>)\<rparr>"
    (is "_ = ?goal")
proof -
  let ?fd = "\<lparr>fd_firstName = field_value (firstName s),
                           fd_lastName = field_value (lastName s),
                           fd_email = field_value (email s),
                           fd_program = field_value (program s),
                           fd_startDate = field_value (startDate s),
                           fd_submittedAt = now s\<rparr>"
  let ?cb = "ApplicationDone ?fd (element_textContent s (event_target s))"
  let ?s1 = "submitApplication s"
  have q: "timeouts ?s1 = (now s + 2000, ?cb) # []"
    by (simp add: submitApplication_valid_state [OF valid] idle)
  let ?s2 = "run_task ?cb (?s1\<lparr>now := max (now ?s1) (now s + 2000), timeouts := []\<rparr>)"
  have step: "advance_to (now s + t) ?s1 = advance_to (now s + t) ?s2"
    using t by (intro advance_to_due [OF q]) simp
  have q2: "timeouts ?s2 = (now s + 7000, HideSuccessMessage) # []"
    using inst
    by (simp add: submitApplication_valid_state [OF valid] Let_def showSuccessMessage_def
        setTimeout_def application_reset_def trackEvent_def)
  let ?s3 = "run_task HideSuccessMessage (?s2\<lparr>now := max (now ?s2) (now s + 7000), timeouts := []\<rparr>)"
  have step2: "advance_to (now s + t) ?s2 = advance_to (now s + t) ?s3"
    using t by (intro advance_to_due [OF q2]) simp
  have q3: "timeouts ?s3 = []" by (simp add: hide_success_def)
  have step3: "advance_to (now s + t) ?s3 = ?s3\<lparr>now := max (now ?s3) (now s + t)\<rparr>"
    by (rule advance_to_idle [OF q3])
  have final: "?s3\<lparr>now := max (now ?s3) (now s + t)\<rparr> = ?goal"
    using inst t
    by (simp add: submitApplication_valid_state [OF valid] idle Let_def showSuccessMessage_def
        setTimeout_def application_reset_def trackEvent_def success_toast_def max_def
        hide_success_def)
  show ?thesis unfolding step step2 step3 by (rule final)
qed

lemma toast_state:
  assumes idle: "timeouts s = []"
  shows "t < 5000 \<Longrightarrow> advance_to (now s + t) (showSuccessMessage message s)
           = s\<lparr>now := now s + t, timeouts := [(now s + 5000, HideSuccessMessage)],
               successDiv := Some (success_toast message s)\<rparr>"
    and "5000 \<le> t \<Longrightarrow> advance_to (now s + t) (showSuccessMessage message s)
           = s\<lparr>now := now s + t, timeouts := [],
               successDiv := Some ((success_toast message s)\<lparr>sd_display := ''none''\<rparr>)\<rparr>"
proof -
  let ?s1 = "showSuccessMessage message s"
  have q: "timeouts ?s1 = (now s + 5000, HideSuccessMessage) # []"
    by (simp add: showSuccessMessage_def setTimeout_def idle)
  have n: "now ?s1 = now s" by (simp add: showSuccessMessage_def setTimeout_def)
  show "advance_to (now s + t) ?s1
           = s\<lparr>now := now s + t, timeouts := [(now s + 5000, HideSuccessMessage)],
               successDiv := Some (success_toast message s)\<rparr>" if "t < 5000"
    using advance_to_later [OF q, of "now s + t"] that
    by (simp add: showSuccessMessage_def setTimeout_def idle max_def)
  let ?s2 = "run_task HideSuccessMessage (?s1\<lparr>now := max (now ?s1) (now s + 5000), timeouts := []\<rparr>)"
  show "advance_to (now s + t) ?s1
           = s\<lparr>now := now s + t, timeouts := [],
               successDiv := Some ((success_toast message s)\<lparr>sd_display := ''none''\<rparr>)\<rparr>"
    if t: "5000 \<le> t"
  proof -
    have step: "advance_to (now s + t) ?s1 = advance_to (now s + t) ?s2"
      using t by (intro advance_to_due [OF q]) simp
    have q2: "timeouts ?s2 = []" by (simp add: hide_success_def)
    have step2: "advance_to (now s + t) ?s2 = ?s2\<lparr>now := max (now ?s2) (now s + t)\<rparr>"
      by (rule advance_to_idle [OF q2])
    have final: "?s2\<lparr>now := max (now ?s2) (now s + t)\<rparr>
        = s\<lparr>now := now s + t, timeouts := [],
               successDiv := Some ((success_toast message s)\<lparr>sd_display := ''none''\<rparr>)\<rparr>"
      using t by (simp add: showSuccessMessage_def setTimeout_def hide_success_def max_def)
    show ?thesis unfolding step step2 by (rule final)
  qed
qed

lemma mark_invalid_valid: "checkValidity f \<Longrightarrow> mark_invalid f = f"
  by (simp add: mark_invalid_def)

lemma submitInfoRequest_valid_state:
  assumes "infoRequestForm s" "info_required_valid s"
  shows "submitInfoRequest s =
     s\<lparr>infoSubmitBtn := \<lparr>innerHTML = sending_markup, disabled = True\<rparr>,
       timeouts := enqueue (now s + 1500,
          InfoRequestDone \<lparr>pl_firstName = trim (field_value (riFirstName s)),
                           pl_lastName = trim (field_value (riLastName s)),
                           pl_email = trim (field_value (riEmail s)),
                           pl_interest = field_value (riInterest s),
                           pl_message = trim (field_value (riMessage s)),
                           pl_submittedAt = now s\<rparr>
                          (innerHTML (infoSubmitBtn s))) (timeouts s)\<rparr>"
  using assms
  by (simp add: submitInfoRequest_def Let_def setTimeout_def info_required_valid_def
      mark_invalid_valid)

lemma info_done_state:
  assumes form: "infoRequestForm s" and valid: "info_required_valid s"
    and idle: "timeouts s = []" and t: "1500 \<le> t"
  shows "advance_to (now s + t) (submitInfoRequest s) =
     s\<lparr>now := now s + t,
       timeouts := [],
       console := console s @
         [InfoRequestSubmitted \<lparr>pl_firstName = trim (field_value (riFirstName s)),
                           pl_lastName = trim (field_value (riLastName s)),
                           pl_email = trim (field_value (riEmail s)),
                           pl_interest = field_value (riInterest s),
                           pl_message = trim (field_value (riMessage s)),
                           pl_submittedAt = now s\<rparr>,
          EventTracked ''info_request_submitted'' (field_value (riInterest s))],
       riFirstName := reset_field (riFirstName s), riLastName := reset_field (riLastName s),
       riEmail := reset_field (riEmail s), riInterest := reset_field (riInterest s),
       riMessage := reset_field (riMessage s),
       infoSubmitBtn := \<lparr>innerHTML = innerHTML (infoSubmitBtn s), disabled = False\<rparr>,
       infoSuccess := map_option
         (\<lambda>el. \<lparr>is_classList = classList_remove ''d-none'' (is_classList el),
                is_textContent = info_success_text\<rparr>) (infoSuccess s)\<rparr>"
    (is "_ = ?goal")
proof -
  let ?pl = "\<lparr>pl_firstName = trim (field_value (riFirstName s)),
                           pl_lastName = trim (field_value (riLastName s)),
                           pl_email = trim (field_value (riEmail s)),
                           pl_interest = field_value (riInterest s),
                           pl_message = trim (field_value (riMessage s)),
                           pl_submittedAt = now s\<rparr>"
  let ?cb = "InfoRequestDone ?pl (innerHTML (infoSubmitBtn s))"
  let ?s1 = "submitInfoRequest s"
  have q: "timeouts ?s1 = (now s + 1500, ?cb) # []"
    by (simp add: submitInfoRequest_valid_state [OF form valid] idle)
  let ?s2 = "run_task ?cb (?s1\<lparr>now := max (now ?s1) (now s + 1500), timeouts := []\<rparr>)"
  have step: "advance_to (now s + t) ?s1 = advance_to (now s + t) ?s2"
    using t by (intro advance_to_due [OF q]) simp
  have q2: "timeouts ?s2 = []"
    by (simp add: Let_def info_reset_def trackEvent_def split: option.splits)
  have step2: "advance_to (now s + t) ?s2 = ?s2\<lparr>now := max (now ?s2) (now s + t)\<rparr>"
    by (rule advance_to_idle [OF q2])
  have final: "?s2\<lparr>now := max (now ?s2) (now s + t)\<rparr> = ?goal"
    using t
    by (simp add: submitInfoRequest_valid_state [OF form valid] idle Let_def info_reset_def
        trackEvent_def max_def split: option.splits)
  show ?thesis unfolding step step2 by (rule final)
qed

lemma html_text_plain:
  assumes "\<forall>c \<in> set str. c \<notin> set [CHR 0x00, CHR 0x0D, CHR ''&'', CHR ''<'']"
  shows "html_text open_elements str = Some str"
  using assms by (induction str) auto

lemma element_textContent_plain:
  assumes "parsed_as_phrasing (el_tag e)"
    and "\<forall>c \<in> set (el_markup e). c \<notin> set [CHR 0x00, CHR 0x0D, CHR ''&'', CHR ''<'']"
  shows "element_textContent s e = el_markup e"
  using assms by (simp add: element_textContent_def html_text_plain)

lemmas html_eval =
  tag_closed_def tag_name_def after_tag_def inline_tags_def parsed_as_phrasing_def

lemma trim_decompose:
  "\<exists>pre post. str = pre @ trim str @ post \<and> list_all is_space pre \<and> list_all is_space post"
proof -
  let ?pre = "takeWhile is_space str"
  let ?mid = "dropWhile is_space str"
  let ?post = "rev (takeWhile is_space (rev ?mid))"
  have 1: "str = ?pre @ ?mid" by simp
  have "rev ?mid = takeWhile is_space (rev ?mid) @ dropWhile is_space (rev ?mid)" by simp
  then have "?mid = rev (dropWhile is_space (rev ?mid)) @ ?post"
    by (metis rev_append rev_rev_ident)
  then have 2: "?mid = trim str @ ?post" by (simp add: trim_def)
  have 3: "list_all is_space ?pre"
    by (simp add: list_all_iff) (meson set_takeWhileD)
  have 4: "list_all is_space ?post"
    by (simp add: list_all_iff) (meson set_takeWhileD)
  from 1 2 have "str = ?pre @ trim str @ ?post" by simp
  with 3 4 show ?thesis by blast
qed

lemma trim_ends:
  assumes "trim str \<noteq> []"
  shows "\<not> is_space (hd (trim str))" and "\<not> is_space (last (trim str))"
proof -
  let ?mid = "dropWhile is_space str"
  let ?r = "dropWhile is_space (rev ?mid)"
  have r: "?r \<noteq> []" using assms by (simp add: trim_def)
  then have "\<not> is_space (hd ?r)" by (rule hd_dropWhile)
  then show "\<not> is_space (last (trim str))" using r by (simp add: trim_def last_rev)
  have mid: "?mid \<noteq> []" using r by (metis dropWhile.simps(1) rev.simps(1))
  then have h: "\<not> is_space (hd ?mid)" by (rule hd_dropWhile)
  have "rev ?mid = takeWhile is_space (rev ?mid) @ ?r" by simp
  then have "?mid = rev ?r @ rev (takeWhile is_space (rev ?mid))"
    by (metis rev_append rev_rev_ident)
  then have "hd ?mid = hd (rev ?r)" using r by (metis hd_append2 rev_is_Nil_conv)
  with h show "\<not> is_space (hd (trim str))" by (simp add: trim_def)
qed

lemma trim_changes:
  assumes "str \<noteq> []" "is_space (hd str) \<or> is_space (last str)"
  shows "trim str \<noteq> str"
proof
  assume eq: "trim str = str"
  with assms(1) have "trim str \<noteq> []" by simp
  from trim_ends [OF this] eq assms(2) show False by simp
qed

lemma info_pending_state:
  assumes form: "infoRequestForm s" and valid: "info_required_valid s"
    and idle: "timeouts s = []" and t: "t < 1500"
  shows "advance_to (now s + t) (submitInfoRequest s) = (submitInfoRequest s)\<lparr>now := now s + t\<rparr>"
proof -
  have q: "timeouts (submitInfoRequest s) =
      (now s + 1500, InfoRequestDone \<lparr>pl_firstName = trim (field_value (riFirstName s)),
                           pl_lastName = trim (field_value (riLastName s)),
                           pl_email = trim (field_value (riEmail s)),
                           pl_interest = field_value (riInterest s),
                           pl_message = trim (field_value (riMessage s)),
                           pl_submittedAt = now s\<rparr>
                          (innerHTML (infoSubmitBtn s))) # []"
    by (simp add: submitInfoRequest_valid_state [OF form valid] idle)
  have n: "now (submitInfoRequest s) = now s"
    by (simp add: submitInfoRequest_valid_state [OF form valid])
  from advance_to_later [OF q, of "now s + t"] t n show ?thesis by (simp add: max_def)
qed

lemma sample_page_info_ready:
  "infoRequestForm sample_page" "info_required_valid sample_page" "timeouts sample_page = []"
  "now sample_page = 1000" "console sample_page = []"
  by (simp_all add: sample_page_def info_required_valid_def checkValidity_def required_field_def)

lemma sample_page_application_ready:
  "application_checkValidity (showApplicationForm sample_page)"
  "modal_instance (showApplicationForm sample_page)"
  "timeouts (showApplicationForm sample_page) = []"
  "now (showApplicationForm sample_page) = 1000"
  "console (showApplicationForm sample_page) = []"
  by (simp_all add: application_checkValidity_def checkValidity_def showApplicationForm_def
      sample_page_def required_field_def)

lemma set_enqueue: "set (enqueue x ts) = insert x (set ts)"
  by (induction ts) auto

lemma application_callback_effects:
  assumes "modal_instance s"
  shows "console (run_task (ApplicationDone formData originalText) s)
            = console s @ [ApplicationSubmitted formData,
                           EventTracked ''application_submitted'' (fd_program formData)]
        \<and> map_option sd_textContent (successDiv (run_task (ApplicationDone formData originalText) s))
            = Some application_success_text
        \<and> map_option sd_display (successDiv (run_task (ApplicationDone formData originalText) s))
            = Some ''block''
        \<and> (now s + 5000, HideSuccessMessage)
             \<in> set (timeouts (run_task (ApplicationDone formData originalText) s))
        \<and> map field_value
             [firstName (run_task (ApplicationDone formData originalText) s),
              lastName (run_task (ApplicationDone formData originalText) s),
              email (run_task (ApplicationDone formData originalText) s),
              program (run_task (ApplicationDone formData originalText) s),
              startDate (run_task (ApplicationDone formData originalText) s)]
            = map field_default [firstName s, lastName s, email s, program s, startDate s]
        \<and> event_target (run_task (ApplicationDone formData originalText) s)
            = (event_target s)\<lparr>el_markup := originalText, el_disabled := False\<rparr>
        \<and> \<not> modal_shown (run_task (ApplicationDone formData originalText) s)
        \<and> uncaught (run_task (ApplicationDone formData originalText) s) = uncaught s"
  using assms
  by (simp add: Let_def showSuccessMessage_def setTimeout_def application_reset_def
      trackEvent_def success_toast_def reset_field_def set_enqueue split: option.splits)

text \<open>
  C2. When a control of the application form fails the browser's constraint validation,
  submitApplication returns after \<^verbatim>\<open>reportValidity\<close>: the page is as it was. The
  values of the fields, the console, the set of pending timeouts and the element that
  the click landed on (the submit button, still enabled, with its label) are unchanged, and whatever time passes afterwards the
  console holds what it would hold without the click; on a page with no pending timeout
  nothing is ever logged.
\<close>

theorem submitApplication_invalid_unchanged:
  assumes "\<not> checkValidity (firstName s) \<or> \<not> checkValidity (lastName s)
         \<or> \<not> checkValidity (email s) \<or> \<not> checkValidity (program s)
         \<or> \<not> checkValidity (startDate s)"
  shows "submitApplication s = s
   \<and> map field_value [firstName (submitApplication s), lastName (submitApplication s),
         email (submitApplication s), program (submitApplication s), startDate (submitApplication s)]
       = map field_value [firstName s, lastName s, email s, program s, startDate s]
   \<and> console (submitApplication s) = console s
   \<and> timeouts (submitApplication s) = timeouts s
   \<and> event_target (submitApplication s) = event_target s
   \<and> console (advance_to t (submitApplication s)) = console (advance_to t s)
   \<and> (timeouts s = [] \<longrightarrow> console (advance_to t (submitApplication s)) = console s)"
proof -
  from assms have "\<not> application_checkValidity s"
    by (auto simp: application_checkValidity_def)
  then have same: "submitApplication s = s" by (simp add: submitApplication_def)
  show ?thesis unfolding same by (simp add: advance_to_idle)
qed

theorem submitApplication_invalid_unchanged_witness:
  "\<not> checkValidity (firstName (sample_page\<lparr>firstName := required_field []\<rparr>))
   \<and> timeouts (sample_page\<lparr>firstName := required_field []\<rparr>) = []
   \<and> submitApplication (sample_page\<lparr>firstName := required_field []\<rparr>)
       = sample_page\<lparr>firstName := required_field []\<rparr>
   \<and> console (advance_to 10000 (submitApplication (sample_page\<lparr>firstName := required_field []\<rparr>))) = []
   \<and> event_target (submitApplication (sample_page\<lparr>firstName := required_field []\<rparr>))
       = \<lparr>el_tag = ''button'', el_markup = ''Submit Application'', el_disabled = False\<rparr>"
proof -
  let ?p = "sample_page\<lparr>firstName := required_field []\<rparr>"
  have bad: "\<not> checkValidity (firstName ?p)"
    by (simp add: checkValidity_def required_field_def)
  have idle: "timeouts ?p = []" and con: "console ?p = []"
    and btn: "event_target ?p
      = \<lparr>el_tag = ''button'', el_markup = ''Submit Application'', el_disabled = False\<rparr>"
    by (simp_all add: sample_page_def)
  from bad have h: "\<not> checkValidity (firstName ?p) \<or> \<not> checkValidity (lastName ?p)
         \<or> \<not> checkValidity (email ?p) \<or> \<not> checkValidity (program ?p)
         \<or> \<not> checkValidity (startDate ?p)" by blast
  note th = submitApplication_invalid_unchanged [OF h, of 10000]
  from th have a: "submitApplication ?p = ?p" by (rule conjunct1)
  from th idle have "console (advance_to 10000 (submitApplication ?p)) = console ?p" by blast
  then have b: "console (advance_to 10000 (submitApplication ?p)) = []" by (simp only: con)
  from th have "event_target (submitApplication ?p) = event_target ?p" by blast
  then have c: "event_target (submitApplication ?p)
      = \<lparr>el_tag = ''button'', el_markup = ''Submit Application'', el_disabled = False\<rparr>"
    by (simp only: btn)
  from bad idle a b c show ?thesis by blast
qed

text \<open>
  What a valid submission does. The click's target shows the loading indicator and its
  \<^verbatim>\<open>disabled\<close> property is set; the callback is due 2000 milliseconds later. On a
  page with a modal instance and no other pending timeout, 2000 milliseconds after the
  submission the console holds the record and the tracking event, the success message
  is displayed, the fields hold their defaults, the modal is hidden, and the click's
  target is enabled with, as its content, what the HTML parser makes of the text saved
  at the submission. When that element is the button and its content was plain text,
  this is the content it had.
\<close>

lemma application_effects_after_2000:
  assumes valid: "application_checkValidity s" and inst: "modal_instance s"
    and idle: "timeouts s = []"
  shows "console (advance_to (now s + 2000) (submitApplication s))
            = console s @
               [ApplicationSubmitted \<lparr>fd_firstName = field_value (firstName s),
                           fd_lastName = field_value (lastName s),
                           fd_email = field_value (email s),
                           fd_program = field_value (program s),
                           fd_startDate = field_value (startDate s),
                           fd_submittedAt = now s\<rparr>,
                EventTracked ''application_submitted'' (field_value (program s))]"
    and "map_option sd_textContent (successDiv (advance_to (now s + 2000) (submitApplication s)))
            = Some application_success_text"
    and "map_option sd_display (successDiv (advance_to (now s + 2000) (submitApplication s)))
            = Some ''block''"
    and "map field_value
             [firstName (advance_to (now s + 2000) (submitApplication s)),
              lastName (advance_to (now s + 2000) (submitApplication s)),
              email (advance_to (now s + 2000) (submitApplication s)),
              program (advance_to (now s + 2000) (submitApplication s)),
              startDate (advance_to (now s + 2000) (submitApplication s))]
            = map field_default [firstName s, lastName s, email s, program s, startDate s]"
    and "event_target (advance_to (now s + 2000) (submitApplication s))
            = (event_target s)\<lparr>el_markup := element_textContent s (event_target s),
                                el_disabled := False\<rparr>"
    and "\<not> modal_shown (advance_to (now s + 2000) (submitApplication s))"
    and "uncaught (advance_to (now s + 2000) (submitApplication s)) = uncaught s"
    and "t < 2000 \<Longrightarrow> console (advance_to (now s + t) (submitApplication s)) = console s"
    and "t < 2000 \<Longrightarrow> event_target (advance_to (now s + t) (submitApplication s))
            = (event_target s)\<lparr>el_markup := submitting_markup, el_disabled := True\<rparr>"
proof -
  note at2000 = application_done_state [OF valid inst idle, of 2000]
  show "console (advance_to (now s + 2000) (submitApplication s))
            = console s @
               [ApplicationSubmitted \<lparr>fd_firstName = field_value (firstName s),
                           fd_lastName = field_value (lastName s),
                           fd_email = field_value (email s),
                           fd_program = field_value (program s),
                           fd_startDate = field_value (startDate s),
                           fd_submittedAt = now s\<rparr>,
                EventTracked ''application_submitted'' (field_value (program s))]"
    by (simp add: at2000)
  show "map_option sd_textContent (successDiv (advance_to (now s + 2000) (submitApplication s)))
            = Some application_success_text"
    by (simp add: at2000 success_toast_def split: option.splits)
  show "map_option sd_display (successDiv (advance_to (now s + 2000) (submitApplication s)))
            = Some ''block''"
    by (simp add: at2000 success_toast_def split: option.splits)
  show "map field_value
             [firstName (advance_to (now s + 2000) (submitApplication s)),
              lastName (advance_to (now s + 2000) (submitApplication s)),
              email (advance_to (now s + 2000) (submitApplication s)),
              program (advance_to (now s + 2000) (submitApplication s)),
              startDate (advance_to (now s + 2000) (submitApplication s))]
            = map field_default [firstName s, lastName s, email s, program s, startDate s]"
    by (simp add: at2000 reset_field_def)
  show "event_target (advance_to (now s + 2000) (submitApplication s))
            = (event_target s)\<lparr>el_markup := element_textContent s (event_target s),
                                el_disabled := False\<rparr>"
    by (simp add: at2000)
  show "\<not> modal_shown (advance_to (now s + 2000) (submitApplication s))"
    by (simp add: at2000)
  show "uncaught (advance_to (now s + 2000) (submitApplication s)) = uncaught s"
    by (simp add: at2000)
  show "console (advance_to (now s + t) (submitApplication s)) = console s" if "t < 2000"
    using application_pending_state [OF valid idle that]
    by (simp add: submitApplication_valid_state [OF valid])
  show "event_target (advance_to (now s + t) (submitApplication s))
            = (event_target s)\<lparr>el_markup := submitting_markup, el_disabled := True\<rparr>"
    if "t < 2000"
    using application_pending_state [OF valid idle that]
    by (simp add: submitApplication_valid_state [OF valid])
qed

lemma application_plain_label_restored:
  assumes valid: "application_checkValidity s" and inst: "modal_instance s"
    and idle: "timeouts s = []"
    and button: "parsed_as_phrasing (el_tag (event_target s))" "\<not> el_disabled (event_target s)"
    and plain: "\<forall>c \<in> set (el_markup (event_target s)).
                  c \<notin> set [CHR 0x00, CHR 0x0D, CHR ''&'', CHR ''<'']"
  shows "event_target (advance_to (now s + 2000) (submitApplication s)) = event_target s"
  using button(2)
  by (simp add: application_effects_after_2000(5) [OF valid inst idle]
      element_textContent_plain [OF button(1) plain])

text \<open>
  Without a modal instance (the form submitted on a page where neither
  showApplicationForm nor Bootstrap has created one) the callback ends at
  \<^verbatim>\<open>modal.hide()\<close> with a TypeError: the record is logged, the message shown and the
  form reset, but the click's target stays disabled with the loading indicator and no
  tracking event is logged.
\<close>

lemma application_without_modal_instance:
  assumes "\<not> modal_instance s"
  shows "console (run_task (ApplicationDone formData originalText) s)
           = console s @ [ApplicationSubmitted formData]"
    and "event_target (run_task (ApplicationDone formData originalText) s) = event_target s"
    and "uncaught (run_task (ApplicationDone formData originalText) s) = uncaught s @ [TypeError]"
  using assms
  by (simp_all add: Let_def showSuccessMessage_def setTimeout_def application_reset_def)

text \<open>
  C3. The specification has a valid submission result, after 2000 milliseconds, in the
  logged record, the success message, the reset form, the submit button enabled again
  with its original label restored, and the tracking event. submitApplication saves the
  \<^verbatim>\<open>textContent\<close> of the button and the callback assigns that text to its
  \<^verbatim>\<open>innerHTML\<close>, which parses it as markup. On the page \<open>markup_label_page\<close> the
  click lands on the button itself, the modal is open, the form is valid, and the
  button's content is \<^verbatim>\<open>a &lt;b&gt; c\<close>, so that its label reads \<^verbatim>\<open>a <b> c\<close>. After
  2000 milliseconds the record and the tracking event are logged, the message is
  displayed, the fields are reset, the modal is hidden and the button is enabled; but
  its content is what the parser makes of \<^verbatim>\<open>a <b> c\<close>, with a \<^verbatim>\<open>b\<close> element in
  place of the three characters, and its label reads \<^verbatim>\<open>a  c\<close>. The info request handler
  saves and restores \<^verbatim>\<open>innerHTML\<close> and does restore such a label.
\<close>

theorem submitApplication_label_not_restored:
  "application_checkValidity markup_label_page
   \<and> modal_instance markup_label_page
   \<and> timeouts markup_label_page = []
   \<and> now markup_label_page = 1000
   \<and> event_target markup_label_page
      = \<lparr>el_tag = ''button'', el_markup = ''a &lt;b&gt; c'', el_disabled = False\<rparr>
   \<and> element_textContent markup_label_page (event_target markup_label_page) = ''a <b> c''
   \<and> console (advance_to 3000 (submitApplication markup_label_page))
      = [ApplicationSubmitted \<lparr>fd_firstName = '' Ada '', fd_lastName = ''Lovelace'',
            fd_email = ''ada@example.org'', fd_program = ''computer-science'',
            fd_startDate = ''2026-09'', fd_submittedAt = 1000\<rparr>,
         EventTracked ''application_submitted'' ''computer-science'']
   \<and> map_option sd_display (successDiv (advance_to 3000 (submitApplication markup_label_page)))
      = Some ''block''
   \<and> map field_value
        [firstName (advance_to 3000 (submitApplication markup_label_page)),
         lastName (advance_to 3000 (submitApplication markup_label_page)),
         email (advance_to 3000 (submitApplication markup_label_page)),
         program (advance_to 3000 (submitApplication markup_label_page)),
         startDate (advance_to 3000 (submitApplication markup_label_page))]
      = [[], [], [], [], []]
   \<and> \<not> modal_shown (advance_to 3000 (submitApplication markup_label_page))
   \<and> uncaught (advance_to 3000 (submitApplication markup_label_page)) = []
   \<and> event_target (advance_to 3000 (submitApplication markup_label_page))
      = \<lparr>el_tag = ''button'', el_markup = ''a <b> c'', el_disabled = False\<rparr>
   \<and> element_textContent (advance_to 3000 (submitApplication markup_label_page))
        (event_target (advance_to 3000 (submitApplication markup_label_page)))
      = ''a  c''"
proof -
  let ?p = "markup_label_page"
  have ready: "application_checkValidity ?p" "modal_instance ?p" "timeouts ?p = []"
    and clock: "now ?p = 1000"
    and el0: "event_target ?p
      = \<lparr>el_tag = ''button'', el_markup = ''a &lt;b&gt; c'', el_disabled = False\<rparr>"
    by (simp_all add: markup_label_page_def application_checkValidity_def checkValidity_def
        showApplicationForm_def sample_page_def required_field_def)
  have v: "field_value (firstName ?p) = '' Ada ''" "field_value (lastName ?p) = ''Lovelace''"
    "field_value (email ?p) = ''ada@example.org''"
    "field_value (program ?p) = ''computer-science''"
    "field_value (startDate ?p) = ''2026-09''" "console ?p = []" "uncaught ?p = []"
    "map field_default [firstName ?p, lastName ?p, email ?p, program ?p, startDate ?p]
       = [[], [], [], [], []]"
    by (simp_all add: markup_label_page_def showApplicationForm_def sample_page_def
        required_field_def)
  have before: "html_text [] ''a &lt;b&gt; c'' = Some ''a <b> c''"
    by (simp add: html_eval)
  have after: "html_text [] ''a <b> c'' = Some ''a  c''"
    by (simp add: html_eval)
  have tx: "element_textContent ?p (event_target ?p) = ''a <b> c''"
    by (simp add: element_textContent_def el0 before html_eval)
  have t1: "(3000::nat) = now ?p + 2000" by (simp add: clock)
  note eff = application_effects_after_2000 [OF ready, folded t1]
  have c: "console (advance_to 3000 (submitApplication ?p))
      = [ApplicationSubmitted \<lparr>fd_firstName = '' Ada '', fd_lastName = ''Lovelace'',
            fd_email = ''ada@example.org'', fd_program = ''computer-science'',
            fd_startDate = ''2026-09'', fd_submittedAt = 1000\<rparr>,
         EventTracked ''application_submitted'' ''computer-science'']"
    unfolding eff(1) v clock by simp
  have f: "map field_value
        [firstName (advance_to 3000 (submitApplication ?p)),
         lastName (advance_to 3000 (submitApplication ?p)),
         email (advance_to 3000 (submitApplication ?p)),
         program (advance_to 3000 (submitApplication ?p)),
         startDate (advance_to 3000 (submitApplication ?p))]
      = [[], [], [], [], []]"
    unfolding eff(4) by (rule v(8))
  have u: "uncaught (advance_to 3000 (submitApplication ?p)) = []"
    unfolding eff(7) by (rule v(7))
  have e: "event_target (advance_to 3000 (submitApplication ?p))
      = \<lparr>el_tag = ''button'', el_markup = ''a <b> c'', el_disabled = False\<rparr>"
    unfolding eff(5) tx by (simp add: el0)
  have tx2: "element_textContent (advance_to 3000 (submitApplication ?p))
        (event_target (advance_to 3000 (submitApplication ?p))) = ''a  c''"
    unfolding e by (simp add: element_textContent_def after html_eval)
  from ready clock el0 tx c eff(3) f eff(6) u e tx2 show ?thesis by blast
qed

text \<open>
  C4, as the code has it. showSuccessMessage displays the message and sets its hiding
  for 5000 milliseconds later; the callback of submitInfoRequest removes
  \<^verbatim>\<open>d-none\<close> from \<^verbatim>\<open>#infoSuccess\<close>, sets no timeout and does not touch the
  message of showSuccessMessage. On a page with no other pending timeout: in the
  application flow the message is displayed from 2000 to 7000 milliseconds after the
  submission and hidden from then on (and likewise, from 0 to 5000, for
  showSuccessMessage called on its own); in the info request flow
  \<^verbatim>\<open>#infoSuccess\<close> is displayed from 1500 milliseconds after the submission on, at
  every later time, and no timeout is pending.
\<close>

theorem success_message_hiding:
  "map_option sd_display (successDiv (showSuccessMessage message s)) = Some ''block''
   \<and> (now s + 5000, HideSuccessMessage) \<in> set (timeouts (showSuccessMessage message s))
   \<and> map_option sd_display (successDiv (run_task HideSuccessMessage s))
       = map_option (\<lambda>d. ''none'') (successDiv s)
   \<and> timeouts (run_task (InfoRequestDone pl original) s) = timeouts s
   \<and> successDiv (run_task (InfoRequestDone pl original) s) = successDiv s
   \<and> map_option (\<lambda>el. ''d-none'' \<in> set (is_classList el))
         (infoSuccess (run_task (InfoRequestDone pl original) s))
       = map_option (\<lambda>el. False) (infoSuccess s)
   \<and> (application_checkValidity s \<and> modal_instance s \<and> timeouts s = []
      \<longrightarrow> (2000 \<le> t \<and> t < 7000
            \<longrightarrow> map_option sd_display (successDiv (advance_to (now s + t) (submitApplication s)))
                = Some ''block'')
        \<and> (7000 \<le> t
            \<longrightarrow> map_option sd_display (successDiv (advance_to (now s + t) (submitApplication s)))
                = Some ''none''))
   \<and> (timeouts s = []
      \<longrightarrow> (t < 5000
            \<longrightarrow> map_option sd_display (successDiv (advance_to (now s + t) (showSuccessMessage message s)))
                = Some ''block'')
        \<and> (5000 \<le> t
            \<longrightarrow> map_option sd_display (successDiv (advance_to (now s + t) (showSuccessMessage message s)))
                = Some ''none''))
   \<and> (infoRequestForm s \<and> info_required_valid s \<and> timeouts s = [] \<and> 1500 \<le> t
      \<longrightarrow> infoSuccess (advance_to (now s + t) (submitInfoRequest s))
            = map_option
                (\<lambda>el. \<lparr>is_classList = classList_remove ''d-none'' (is_classList el),
                       is_textContent = info_success_text\<rparr>) (infoSuccess s)
        \<and> map_option (\<lambda>el. ''d-none'' \<in> set (is_classList el))
              (infoSuccess (advance_to (now s + t) (submitInfoRequest s)))
            = map_option (\<lambda>el. False) (infoSuccess s)
        \<and> timeouts (advance_to (now s + t) (submitInfoRequest s)) = [])"
proof -
  have app1: "application_checkValidity s \<Longrightarrow> modal_instance s \<Longrightarrow> timeouts s = []
      \<Longrightarrow> 2000 \<le> t \<Longrightarrow> t < 7000
      \<Longrightarrow> map_option sd_display (successDiv (advance_to (now s + t) (submitApplication s)))
                = Some ''block''"
    by (simp add: application_done_state success_toast_def Let_def)
  have app2: "application_checkValidity s \<Longrightarrow> modal_instance s \<Longrightarrow> timeouts s = []
      \<Longrightarrow> 7000 \<le> t
      \<Longrightarrow> map_option sd_display (successDiv (advance_to (now s + t) (submitApplication s)))
                = Some ''none''"
    by (simp add: application_hidden_state)
  have toast1: "timeouts s = [] \<Longrightarrow> t < 5000
      \<Longrightarrow> map_option sd_display (successDiv (advance_to (now s + t) (showSuccessMessage message s)))
                = Some ''block''"
    by (simp add: toast_state success_toast_def Let_def)
  have toast2: "timeouts s = [] \<Longrightarrow> 5000 \<le> t
      \<Longrightarrow> map_option sd_display (successDiv (advance_to (now s + t) (showSuccessMessage message s)))
                = Some ''none''"
    by (simp add: toast_state)
  have info: "infoRequestForm s \<Longrightarrow> info_required_valid s \<Longrightarrow> timeouts s = [] \<Longrightarrow> 1500 \<le> t
      \<Longrightarrow> infoSuccess (advance_to (now s + t) (submitInfoRequest s))
            = map_option
                (\<lambda>el. \<lparr>is_classList = classList_remove ''d-none'' (is_classList el),
                       is_textContent = info_success_text\<rparr>) (infoSuccess s)
        \<and> map_option (\<lambda>el. ''d-none'' \<in> set (is_classList el))
              (infoSuccess (advance_to (now s + t) (submitInfoRequest s)))
            = map_option (\<lambda>el. False) (infoSuccess s)
        \<and> timeouts (advance_to (now s + t) (submitInfoRequest s)) = []"
    by (simp add: info_done_state option.map_comp comp_def classList_remove_set)
  have general: "map_option sd_display (successDiv (showSuccessMessage message s)) = Some ''block''"
    "(now s + 5000, HideSuccessMessage) \<in> set (timeouts (showSuccessMessage message s))"
    "map_option sd_display (successDiv (run_task HideSuccessMessage s))
       = map_option (\<lambda>d. ''none'') (successDiv s)"
    "timeouts (run_task (InfoRequestDone pl original) s) = timeouts s"
    "successDiv (run_task (InfoRequestDone pl original) s) = successDiv s"
    "map_option (\<lambda>el. ''d-none'' \<in> set (is_classList el))
         (infoSuccess (run_task (InfoRequestDone pl original) s))
       = map_option (\<lambda>el. False) (infoSuccess s)"
    by (simp_all add: showSuccessMessage_def setTimeout_def success_toast_def set_enqueue
        hide_success_def option.map_comp comp_def Let_def info_reset_def trackEvent_def
        classList_remove_set split: option.splits)
  from general app1 app2 toast1 toast2 info show ?thesis by blast
qed

theorem success_message_hiding_witness:
  "application_checkValidity (showApplicationForm sample_page)
   \<and> modal_instance (showApplicationForm sample_page)
   \<and> timeouts (showApplicationForm sample_page) = []
   \<and> map_option sd_display (successDiv (advance_to 3000 (submitApplication (showApplicationForm sample_page))))
       = Some ''block''
   \<and> map_option sd_display (successDiv (advance_to 7999 (submitApplication (showApplicationForm sample_page))))
       = Some ''block''
   \<and> map_option sd_display (successDiv (advance_to 8000 (submitApplication (showApplicationForm sample_page))))
       = Some ''none''
   \<and> infoRequestForm sample_page \<and> info_required_valid sample_page \<and> timeouts sample_page = []
   \<and> timeouts (advance_to 7500 (submitInfoRequest sample_page)) = []
   \<and> map_option (\<lambda>el. ''d-none'' \<in> set (is_classList el))
        (infoSuccess (advance_to 7500 (submitInfoRequest sample_page))) = Some False
   \<and> map_option sd_display (successDiv (advance_to 5999 (showSuccessMessage ''Saved'' sample_page)))
       = Some ''block''
   \<and> map_option sd_display (successDiv (advance_to 6000 (showSuccessMessage ''Saved'' sample_page)))
       = Some ''none''"
proof -
  let ?p = "showApplicationForm sample_page"
  note a = sample_page_application_ready
  note i = sample_page_info_ready
  have el0: "infoSuccess sample_page = Some \<lparr>is_classList = [''alert'', ''d-none''], is_textContent = []\<rparr>"
    by (simp add: sample_page_def)
  have t: "(1000::nat) + 2000 = 3000" "(1000::nat) + 6999 = 7999" "(1000::nat) + 7000 = 8000"
    "(1000::nat) + 6500 = 7500" by simp_all
  have 1: "map_option sd_display (successDiv (advance_to 3000 (submitApplication ?p))) = Some ''block''"
    using success_message_hiding [where s = ?p and t = 2000] a(1-3) unfolding a(4) t by simp
  have 2: "map_option sd_display (successDiv (advance_to 7999 (submitApplication ?p))) = Some ''block''"
    using success_message_hiding [where s = ?p and t = 6999] a(1-3) unfolding a(4) t by simp
  have 3: "map_option sd_display (successDiv (advance_to 8000 (submitApplication ?p))) = Some ''none''"
    using success_message_hiding [where s = ?p and t = 7000] a(1-3) unfolding a(4) t by simp
  have 4: "timeouts (advance_to 7500 (submitInfoRequest sample_page)) = []"
    "map_option (\<lambda>el. ''d-none'' \<in> set (is_classList el))
        (infoSuccess (advance_to 7500 (submitInfoRequest sample_page))) = Some False"
    using success_message_hiding [where s = sample_page and t = 6500] i(1-3) unfolding i(4) t el0
    by (simp_all add: classList_remove_set)
  have t': "(1000::nat) + 4999 = 5999" "(1000::nat) + 5000 = 6000" by simp_all
  have 5: "map_option sd_display (successDiv (advance_to 5999 (showSuccessMessage ''Saved'' sample_page)))
       = Some ''block''"
    using success_message_hiding [where s = sample_page and t = 4999 and message = "''Saved''"] i(3)
    unfolding i(4) t' by simp
  have 6: "map_option sd_display (successDiv (advance_to 6000 (showSuccessMessage ''Saved'' sample_page)))
       = Some ''none''"
    using success_message_hiding [where s = sample_page and t = 5000 and message = "''Saved''"] i(3)
    unfolding i(4) t' by simp
  from a(1-3) i(1-3) 1 2 3 4 5 6 show ?thesis by blast
qed

text \<open>
  C4 as the specification words it fails for the info request flow. On the sample page, submitted
  at 1000 milliseconds, \<^verbatim>\<open>#infoSuccess\<close> is hidden (\<^verbatim>\<open>d-none\<close>) until 2499,
  displayed at 2500, and 5000 milliseconds later, at 7500, it is still displayed, with
  no timeout left that could hide it.
\<close>

theorem info_success_stays_visible_counterexample:
  "map_option is_classList (infoSuccess (advance_to 2499 (submitInfoRequest sample_page)))
       = Some [''alert'', ''d-none'']
   \<and> map_option is_classList (infoSuccess (advance_to 2500 (submitInfoRequest sample_page)))
       = Some [''alert'']
   \<and> map_option is_classList (infoSuccess (advance_to 7500 (submitInfoRequest sample_page)))
       = Some [''alert'']
   \<and> timeouts (advance_to 7500 (submitInfoRequest sample_page)) = []"
proof -
  note i = sample_page_info_ready
  have el0: "infoSuccess sample_page = Some \<lparr>is_classList = [''alert'', ''d-none''], is_textContent = []\<rparr>"
    by (simp add: sample_page_def)
  have t: "(1000::nat) + 1499 = 2499" "(1000::nat) + 1500 = 2500" "(1000::nat) + 6500 = 7500"
    by simp_all
  have 1: "map_option is_classList (infoSuccess (advance_to 2499 (submitInfoRequest sample_page)))
       = Some [''alert'', ''d-none'']"
    using info_pending_state [OF i(1-3), of 1499] unfolding i(4) t
    by (simp add: submitInfoRequest_valid_state [OF i(1,2)] el0)
  have 2: "map_option is_classList (infoSuccess (advance_to 2500 (submitInfoRequest sample_page)))
       = Some [''alert'']"
    using info_done_state [OF i(1-3), of 1500] unfolding i(4) t
    by (simp add: el0 classList_remove_def)
  have 3: "map_option is_classList (infoSuccess (advance_to 7500 (submitInfoRequest sample_page)))
       = Some [''alert'']"
    "timeouts (advance_to 7500 (submitInfoRequest sample_page)) = []"
    using info_done_state [OF i(1-3), of 6500] unfolding i(4) t
    by (simp_all add: el0 classList_remove_def)
  from 1 2 3 show ?thesis by blast
qed

text \<open>
  C10. The payload that submitInfoRequest hands to its callback, and that the callback
  logs, holds the first name, last name, email and message with the white space at both
  ends removed and the interest as it is; the form data of submitApplication holds every
  value as it is. On a page with no other pending timeout these are the records on the
  console 1500 and 2000 milliseconds after the submission. What \<open>trim\<close> removes is a run of white space at each
  end, so that the result neither starts nor ends with white space; a value that
  starts or ends with white space is therefore logged differently by the two flows.
\<close>

theorem info_request_trims_application_does_not:
  "(infoRequestForm s \<and> info_required_valid s
      \<longrightarrow> (now s + 1500,
            InfoRequestDone \<lparr>pl_firstName = trim (field_value (riFirstName s)),
                           pl_lastName = trim (field_value (riLastName s)),
                           pl_email = trim (field_value (riEmail s)),
                           pl_interest = field_value (riInterest s),
                           pl_message = trim (field_value (riMessage s)),
                           pl_submittedAt = now s\<rparr>
                          (innerHTML (infoSubmitBtn s)))
             \<in> set (timeouts (submitInfoRequest s)))
   \<and> console (run_task (InfoRequestDone pl original) s)
       = console s @ [InfoRequestSubmitted pl,
                      EventTracked ''info_request_submitted'' (pl_interest pl)]
   \<and> (application_checkValidity s
      \<longrightarrow> (now s + 2000,
            ApplicationDone \<lparr>fd_firstName = field_value (firstName s),
                           fd_lastName = field_value (lastName s),
                           fd_email = field_value (email s),
                           fd_program = field_value (program s),
                           fd_startDate = field_value (startDate s),
                           fd_submittedAt = now s\<rparr>
                          (element_textContent s (event_target s)))
             \<in> set (timeouts (submitApplication s)))
   \<and> console (run_task (ApplicationDone formData originalText) s)
       = console s @ ApplicationSubmitted formData
           # (if modal_instance s
              then [EventTracked ''application_submitted'' (fd_program formData)] else [])
   \<and> (infoRequestForm s \<and> info_required_valid s \<and> timeouts s = []
      \<longrightarrow> console (advance_to (now s + 1500) (submitInfoRequest s))
          = console s @
             [InfoRequestSubmitted \<lparr>pl_firstName = trim (field_value (riFirstName s)),
                           pl_lastName = trim (field_value (riLastName s)),
                           pl_email = trim (field_value (riEmail s)),
                           pl_interest = field_value (riInterest s),
                           pl_message = trim (field_value (riMessage s)),
                           pl_submittedAt = now s\<rparr>,
              EventTracked ''info_request_submitted'' (field_value (riInterest s))])
   \<and> (application_checkValidity s \<and> modal_instance s \<and> timeouts s = []
      \<longrightarrow> console (advance_to (now s + 2000) (submitApplication s))
          = console s @
             [ApplicationSubmitted \<lparr>fd_firstName = field_value (firstName s),
                           fd_lastName = field_value (lastName s),
                           fd_email = field_value (email s),
                           fd_program = field_value (program s),
                           fd_startDate = field_value (startDate s),
                           fd_submittedAt = now s\<rparr>,
              EventTracked ''application_submitted'' (field_value (program s))])
   \<and> (\<exists>pre post. v = pre @ trim v @ post \<and> list_all is_space pre \<and> list_all is_space post)
   \<and> (trim v \<noteq> [] \<longrightarrow> \<not> is_space (hd (trim v)) \<and> \<not> is_space (last (trim v)))
   \<and> (v \<noteq> [] \<and> (is_space (hd v) \<or> is_space (last v)) \<longrightarrow> trim v \<noteq> v)"
proof -
  have info: "infoRequestForm s \<Longrightarrow> info_required_valid s \<Longrightarrow> timeouts s = []
      \<Longrightarrow> console (advance_to (now s + 1500) (submitInfoRequest s))
          = console s @
             [InfoRequestSubmitted \<lparr>pl_firstName = trim (field_value (riFirstName s)),
                           pl_lastName = trim (field_value (riLastName s)),
                           pl_email = trim (field_value (riEmail s)),
                           pl_interest = field_value (riInterest s),
                           pl_message = trim (field_value (riMessage s)),
                           pl_submittedAt = now s\<rparr>,
              EventTracked ''info_request_submitted'' (field_value (riInterest s))]"
    by (simp add: info_done_state)
  have app: "application_checkValidity s \<Longrightarrow> modal_instance s \<Longrightarrow> timeouts s = []
      \<Longrightarrow> console (advance_to (now s + 2000) (submitApplication s))
          = console s @
             [ApplicationSubmitted \<lparr>fd_firstName = field_value (firstName s),
                           fd_lastName = field_value (lastName s),
                           fd_email = field_value (email s),
                           fd_program = field_value (program s),
                           fd_startDate = field_value (startDate s),
                           fd_submittedAt = now s\<rparr>,
              EventTracked ''application_submitted'' (field_value (program s))]"
    by (simp add: application_done_state)
  have general: "infoRequestForm s \<Longrightarrow> info_required_valid s
      \<Longrightarrow> (now s + 1500,
            InfoRequestDone \<lparr>pl_firstName = trim (field_value (riFirstName s)),
                           pl_lastName = trim (field_value (riLastName s)),
                           pl_email = trim (field_value (riEmail s)),
                           pl_interest = field_value (riInterest s),
                           pl_message = trim (field_value (riMessage s)),
                           pl_submittedAt = now s\<rparr>
                          (innerHTML (infoSubmitBtn s)))
             \<in> set (timeouts (submitInfoRequest s))"
    "console (run_task (InfoRequestDone pl original) s)
       = console s @ [InfoRequestSubmitted pl,
                      EventTracked ''info_request_submitted'' (pl_interest pl)]"
    "application_checkValidity s
      \<Longrightarrow> (now s + 2000,
            ApplicationDone \<lparr>fd_firstName = field_value (firstName s),
                           fd_lastName = field_value (lastName s),
                           fd_email = field_value (email s),
                           fd_program = field_value (program s),
                           fd_startDate = field_value (startDate s),
                           fd_submittedAt = now s\<rparr>
                          (element_textContent s (event_target s)))
             \<in> set (timeouts (submitApplication s))"
    "console (run_task (ApplicationDone formData originalText) s)
       = console s @ ApplicationSubmitted formData
           # (if modal_instance s
              then [EventTracked ''application_submitted'' (fd_program formData)] else [])"
    by (simp_all add: submitInfoRequest_valid_state submitApplication_valid_state set_enqueue
        Let_def info_reset_def trackEvent_def showSuccessMessage_def setTimeout_def
        application_reset_def split: option.splits)
  from general info app trim_decompose [of v] trim_ends [of v] trim_changes [of v]
  show ?thesis by blast
qed

theorem info_request_trims_application_does_not_witness:
  "infoRequestForm sample_page \<and> info_required_valid sample_page \<and> timeouts sample_page = []
   \<and> field_value (riFirstName sample_page) = '' Ada ''
   \<and> field_value (firstName (showApplicationForm sample_page)) = '' Ada ''
   \<and> console (advance_to 2500 (submitInfoRequest sample_page))
       = [InfoRequestSubmitted \<lparr>pl_firstName = ''Ada'', pl_lastName = ''Lovelace'',
             pl_email = ''ada@example.org'', pl_interest = '' visit '', pl_message = ''Hello'',
             pl_submittedAt = 1000\<rparr>,
          EventTracked ''info_request_submitted'' '' visit '']
   \<and> application_checkValidity (showApplicationForm sample_page)
   \<and> modal_instance (showApplicationForm sample_page)
   \<and> timeouts (showApplicationForm sample_page) = []
   \<and> console (advance_to 3000 (submitApplication (showApplicationForm sample_page)))
       = [ApplicationSubmitted \<lparr>fd_firstName = '' Ada '', fd_lastName = ''Lovelace'',
             fd_email = ''ada@example.org'', fd_program = ''computer-science'',
             fd_startDate = ''2026-09'', fd_submittedAt = 1000\<rparr>,
          EventTracked ''application_submitted'' ''computer-science'']
   \<and> trim '' Ada '' \<noteq> '' Ada ''
   \<and> trim '' Ada '' = ''Ada''
   \<and> \<not> is_space (hd (trim '' Ada '')) \<and> \<not> is_space (last (trim '' Ada ''))
   \<and> (2500, InfoRequestDone \<lparr>pl_firstName = ''Ada'', pl_lastName = ''Lovelace'',
             pl_email = ''ada@example.org'', pl_interest = '' visit '', pl_message = ''Hello'',
             pl_submittedAt = 1000\<rparr> ''Request Info'')
        \<in> set (timeouts (submitInfoRequest sample_page))"
proof -
  let ?p = "showApplicationForm sample_page"
  note a = sample_page_application_ready
  note i = sample_page_info_ready
  have vi: "field_value (riFirstName sample_page) = '' Ada ''"
    "field_value (riLastName sample_page) = ''Lovelace''"
    "field_value (riEmail sample_page) = ''ada@example.org''"
    "field_value (riInterest sample_page) = '' visit ''"
    "field_value (riMessage sample_page) = ''Hello  ''"
    by (simp_all add: sample_page_def required_field_def optional_field_def)
  have va: "field_value (firstName ?p) = '' Ada ''" "field_value (lastName ?p) = ''Lovelace''"
    "field_value (email ?p) = ''ada@example.org''"
    "field_value (program ?p) = ''computer-science''"
    "field_value (startDate ?p) = ''2026-09''"
    by (simp_all add: showApplicationForm_def sample_page_def required_field_def)
  have tr: "trim '' Ada '' = ''Ada''" "trim ''Lovelace'' = ''Lovelace''"
    "trim ''ada@example.org'' = ''ada@example.org''" "trim ''Hello  '' = ''Hello''"
    by (simp_all add: trim_def is_space_def)
  have t: "(1000::nat) + 1500 = 2500" "(1000::nat) + 2000 = 3000" by simp_all
  have sp: "'' Ada '' \<noteq> [] \<and> (is_space (hd '' Ada '') \<or> is_space (last '' Ada ''))"
    by (simp add: is_space_def)
  note th1 = info_request_trims_application_does_not [where s = sample_page and v = "'' Ada ''"]
  note th2 = info_request_trims_application_does_not [where s = ?p and v = "'' Ada ''"]
  have 1: "console (advance_to 2500 (submitInfoRequest sample_page))
       = [InfoRequestSubmitted \<lparr>pl_firstName = ''Ada'', pl_lastName = ''Lovelace'',
             pl_email = ''ada@example.org'', pl_interest = '' visit '', pl_message = ''Hello'',
             pl_submittedAt = 1000\<rparr>,
          EventTracked ''info_request_submitted'' '' visit '']"
    using th1 i(1-3) unfolding i(4,5) vi tr t by simp
  have 2: "console (advance_to 3000 (submitApplication ?p))
       = [ApplicationSubmitted \<lparr>fd_firstName = '' Ada '', fd_lastName = ''Lovelace'',
             fd_email = ''ada@example.org'', fd_program = ''computer-science'',
             fd_startDate = ''2026-09'', fd_submittedAt = 1000\<rparr>,
          EventTracked ''application_submitted'' ''computer-science'']"
    using th2 a(1-3) unfolding a(4,5) va t by simp
  have 3: "trim '' Ada '' \<noteq> '' Ada ''" using th1 sp by blast
  have ne: "trim '' Ada '' \<noteq> []" by (simp add: tr)
  have 4: "\<not> is_space (hd (trim '' Ada ''))" "\<not> is_space (last (trim '' Ada ''))"
    using th1 ne by blast+
  have btn: "innerHTML (infoSubmitBtn sample_page) = ''Request Info''"
    by (simp add: sample_page_def)
  have 5: "(2500, InfoRequestDone \<lparr>pl_firstName = ''Ada'', pl_lastName = ''Lovelace'',
             pl_email = ''ada@example.org'', pl_interest = '' visit '', pl_message = ''Hello'',
             pl_submittedAt = 1000\<rparr> ''Request Info'')
        \<in> set (timeouts (submitInfoRequest sample_page))"
    using th1 i(1,2) unfolding i(4) vi tr t btn by simp
  from i(1-3) a(1-3) vi(1) va(1) 1 2 3 4 5 tr(1) show ?thesis by blast
qed


end
